theory Spec2Isabelle
  imports Complex_Main "HOL-Library.Word" "HOL-Library.Signed_Division" "HOL-Library.Multiset"
begin

unbundle bit_operations_syntax

section \<open>The parts of Go and of its image package the program relies on\<close>

text \<open>
  Go's \<open>int\<close> (coordinates, loop counters, grid sizes) is 64 bits wide and wraps around.
  It is modelled as \<open>int\<close>, with the wrap-around written out (\<open>wrap64\<close>) in
  \<open>createChunks\<close> and in Go's division, which take any rectangle and any grid; elsewhere
  the coordinates are those of a raster held in memory, which no operation takes out of
  the 64-bit range.
  The channel values returned by \<open>Color.RGBA()\<close> are \<open>uint32\<close>, the channels of
  \<open>color.RGBA\<close> are \<open>uint8\<close>, the three counters are \<open>int64\<close>: these are words,
  with Go's wrap-around. \<open>float64\<close> is modelled as \<open>real\<close> (exact arithmetic, no
  rounding, no NaN); what is stated about the value of a rendered channel is stated for
  the inputs at which the exact results are \<open>float64\<close> values, where the program does not
  round either. Logging is left out.
\<close>

type_synonym uint8 = "8 word"
type_synonym uint32 = "32 word"
type_synonym int64 = "64 word"
type_synonym float64 = real

text \<open>\<open>for i := a; i < n; i++ { body }\<close>, threading the variables the body updates.\<close>

function forLoop :: "int \<Rightarrow> int \<Rightarrow> (int \<Rightarrow> 's \<Rightarrow> 's) \<Rightarrow> 's \<Rightarrow> 's" where
  "forLoop i n body s = (if i < n then forLoop (i + 1) n body (body i s) else s)"
  by pat_completeness auto
termination
  by (relation "measure (\<lambda>(i, n, body, s). nat (n - i))") auto

declare forLoop.simps [simp del]

text \<open>The value of a 64-bit signed integer after an operation whose exact result is \<open>k\<close>.\<close>

definition wrap64 :: "int \<Rightarrow> int" where
  "wrap64 k = (k + 2 ^ 63) mod 2 ^ 64 - 2 ^ 63"

definition fitsInt64 :: "int \<Rightarrow> bool" where
  "fitsInt64 k = (- (2 ^ 63) \<le> k \<and> k < 2 ^ 63)"

text \<open>Go's integer division truncates towards zero and panics on a zero divisor.\<close>

definition goDiv :: "int \<Rightarrow> int \<Rightarrow> int option" where
  "goDiv a b = (if b = 0 then None else Some (wrap64 (a sdiv b)))"

text \<open>\<open>image.Rectangle\<close>: the points with \<open>Min.X \<le> x < Max.X\<close> and \<open>Min.Y \<le> y < Max.Y\<close>.\<close>

record Rectangle =
  MinX :: int
  MinY :: int
  MaxX :: int
  MaxY :: int

definition Dx :: "Rectangle \<Rightarrow> int" where
  "Dx r = MaxX r - MinX r"

definition Dy :: "Rectangle \<Rightarrow> int" where
  "Dy r = MaxY r - MinY r"

text \<open>\<open>image.Rect\<close> swaps the coordinates of an axis given in the wrong order.\<close>

definition image_Rect :: "int \<Rightarrow> int \<Rightarrow> int \<Rightarrow> int \<Rightarrow> Rectangle" where
  "image_Rect x0 y0 x1 y1 =
     \<lparr>MinX = min x0 x1, MinY = min y0 y1, MaxX = max x0 x1, MaxY = max y0 y1\<rparr>"

definition In :: "int \<times> int \<Rightarrow> Rectangle \<Rightarrow> bool" where
  "In p r = (MinX r \<le> fst p \<and> fst p < MaxX r \<and> MinY r \<le> snd p \<and> snd p < MaxY r)"

text \<open>A rectangle as \<open>Bounds()\<close> returns it: well formed, \<open>Min \<le> Max\<close> on both axes.\<close>

definition wellFormed :: "Rectangle \<Rightarrow> bool" where
  "wellFormed r = (MinX r \<le> MaxX r \<and> MinY r \<le> MaxY r)"

definition rectPixels :: "Rectangle \<Rightarrow> (int \<times> int) set" where
  "rectPixels r = {MinX r..<MaxX r} \<times> {MinY r..<MaxY r}"

section \<open>Data model of the program\<close>

record ImageStats =
  meanR :: float64
  meanG :: float64
  meanB :: float64
  meanA :: float64
  stdR :: float64
  stdG :: float64
  stdB :: float64
  stdA :: float64

record Chunk =
  startX :: int
  endX :: int
  startY :: int
  endY :: int

text \<open>The coordinates the two loops of \<open>computeDiffChunk\<close> visit for a chunk.\<close>

definition pixelsOf :: "Chunk \<Rightarrow> (int \<times> int) set" where
  "pixelsOf c = {startX c..<endX c} \<times> {startY c..<endY c}"

text \<open>
  A list of chunks tiles a rectangle exactly: two chunks at different positions of the
  list share no pixel, and the pixels of all chunks together are those of the rectangle.
\<close>

definition exactTiling :: "Rectangle \<Rightarrow> Chunk list \<Rightarrow> bool" where
  "exactTiling b cs =
     ((\<forall>i < length cs. \<forall>j < length cs. i \<noteq> j \<longrightarrow> pixelsOf (cs ! i) \<inter> pixelsOf (cs ! j) = {})
      \<and> (\<Union>c \<in> set cs. pixelsOf c) = rectPixels b)"

section \<open>normalizePixel\<close>

definition normalizePixel :: "float64 \<Rightarrow> float64 \<Rightarrow> float64 \<Rightarrow> float64" where
  "normalizePixel val mean std = (if std = 0 then val else (val - mean) / std)"

section \<open>createChunks\<close>

text \<open>The chunk built in the body of the inner loop, for row \<open>i\<close> and column \<open>j\<close>.\<close>

definition chunkAt :: "Rectangle \<Rightarrow> int \<Rightarrow> int \<Rightarrow> int \<Rightarrow> int \<Rightarrow> int \<Rightarrow> int \<Rightarrow> Chunk" where
  "chunkAt bounds numChunksX numChunksY chunkWidth chunkHeight i j =
     (let sx = wrap64 (MinX bounds + wrap64 (j * chunkWidth));
          sy = wrap64 (MinY bounds + wrap64 (i * chunkHeight));
          ex = wrap64 (sx + chunkWidth);
          ey = wrap64 (sy + chunkHeight);
          ex = (if j = wrap64 (numChunksX - 1) then MaxX bounds else ex);
          ey = (if i = wrap64 (numChunksY - 1) then MaxY bounds else ey)
      in \<lparr>startX = sx, endX = ex, startY = sy, endY = ey\<rparr>)"

text \<open>
  The sequence is consumed to its end by the only caller, so it is the list of the chunks
  yielded, in order. \<open>None\<close> is the division-by-zero panic. \<open>bounds.Dx()\<close> and
  \<open>bounds.Dy()\<close> are the differences computed in 64 bits.
\<close>

definition createChunks :: "Rectangle \<Rightarrow> int \<Rightarrow> int \<Rightarrow> Chunk list option" where
  "createChunks bounds numChunksX numChunksY =
     (let width = wrap64 (Dx bounds); height = wrap64 (Dy bounds) in
      case goDiv width numChunksX of None \<Rightarrow> None
      | Some chunkWidth \<Rightarrow>
        (case goDiv height numChunksY of None \<Rightarrow> None
         | Some chunkHeight \<Rightarrow>
             Some (forLoop 0 numChunksY (\<lambda>i.
                     forLoop 0 numChunksX (\<lambda>j yielded.
                       yielded @ [chunkAt bounds numChunksX numChunksY chunkWidth chunkHeight i j]))
                   [])))"


text \<open>
  A colour as the program reads it: the four values of \<open>Color.RGBA()\<close>, each a
  \<open>uint32\<close> that the interface promises to lie in \<open>[0, 0xffff]\<close>. An \<open>image.Image\<close>
  is its bounds and, for each point, the values of \<open>At(x, y).RGBA()\<close>.
\<close>

type_synonym Color = "uint32 \<times> uint32 \<times> uint32 \<times> uint32"

record Image =
  Bounds :: Rectangle
  At :: "int \<times> int \<Rightarrow> Color"

text \<open>\<open>color.RGBA\<close> and its method \<open>RGBA()\<close>, which widens a channel \<open>c\<close> to \<open>c | c << 8\<close>.\<close>

datatype RGBA = RGBA (cR: uint8) (cG: uint8) (cB: uint8) (cA: uint8)

definition widen :: "uint8 \<Rightarrow> uint32" where
  "widen c = (let r = (ucast c :: uint32) in r OR push_bit 8 r)"

definition RGBA_RGBA :: "RGBA \<Rightarrow> Color" where
  "RGBA_RGBA c = (widen (cR c), widen (cG c), widen (cB c), widen (cA c))"

text \<open>\<open>color.RGBAModel.Convert\<close>: the high byte of each 16-bit channel.\<close>

definition RGBAModel :: "Color \<Rightarrow> RGBA" where
  "RGBAModel c = (case c of (r, g, b, a) \<Rightarrow>
     RGBA (ucast (drop_bit 8 r)) (ucast (drop_bit 8 g)) (ucast (drop_bit 8 b)) (ucast (drop_bit 8 a)))"

text \<open>
  \<open>*image.RGBA\<close>: a rectangle and one \<open>color.RGBA\<close> per point (the byte slice and its
  stride are abstracted). \<open>NewRGBA\<close> is all zero, \<open>Set\<close> ignores a point outside the
  rectangle, \<open>At\<close> is the zero colour there.
\<close>

record RGBAImage =
  Pix :: "int \<times> int \<Rightarrow> RGBA"
  Rect :: Rectangle

definition NewRGBA :: "Rectangle \<Rightarrow> RGBAImage" where
  "NewRGBA r = \<lparr>Pix = (\<lambda>p. RGBA 0 0 0 0), Rect = r\<rparr>"

definition SetRGBA :: "RGBAImage \<Rightarrow> int \<Rightarrow> int \<Rightarrow> RGBA \<Rightarrow> RGBAImage" where
  "SetRGBA m x y c = (if In (x, y) (Rect m) then m\<lparr>Pix := (Pix m)((x, y) := c)\<rparr> else m)"

definition asImage :: "RGBAImage \<Rightarrow> Image" where
  "asImage m =
     \<lparr>Bounds = Rect m,
      At = (\<lambda>p. if In p (Rect m) then RGBA_RGBA (Pix m p) else RGBA_RGBA (RGBA 0 0 0 0))\<rparr>"

text \<open>
  \<open>draw.Draw(dst, r, src, sp, draw.Src)\<close> of Go's \<open>image/draw\<close>: \<open>r.Min\<close> in \<open>dst\<close> is
  aligned with \<open>sp\<close> in \<open>src\<close>; every point of \<open>r\<close> that lies in \<open>dst\<close> and whose
  source point lies in \<open>src\<close> receives the source colour, converted to \<open>color.RGBA\<close>.
\<close>

definition draw_Src :: "RGBAImage \<Rightarrow> Rectangle \<Rightarrow> Image \<Rightarrow> int \<times> int \<Rightarrow> RGBAImage" where
  "draw_Src dst r src sp =
     dst\<lparr>Pix := (\<lambda>p.
        let q = (fst sp + (fst p - MinX r), snd sp + (snd p - MinY r)) in
        if In p r \<and> In p (Rect dst) \<and> In q (Bounds src) then RGBAModel (At src q)
        else Pix dst p)\<rparr>"

text \<open>
  \<open>uint8(f)\<close> for a \<open>float64\<close>: the fraction is discarded. Go leaves the result open
  when the truncated value does not fit; the low eight bits are kept here.
\<close>

definition floatToInt :: "float64 \<Rightarrow> int" where
  "floatToInt f = (if 0 \<le> f then \<lfloor>f\<rfloor> else - \<lfloor>- f\<rfloor>)"

definition toUint8 :: "float64 \<Rightarrow> uint8" where
  "toUint8 f = word_of_int (floatToInt f)"

text \<open>\<open>float64(v) / 257\<close> for a \<open>uint32\<close> channel value \<open>v\<close>.\<close>

definition float8 :: "uint32 \<Rightarrow> float64" where
  "float8 v = real (unat v) / 257"

section \<open>calculateImageStats\<close>

text \<open>
  The two passes. A zero pixel count gives NaN in Go and \<open>0\<close> here; the function is
  only characterised for a positive area.
\<close>

definition calculateImageStats :: "Image \<Rightarrow> ImageStats" where
  "calculateImageStats img =
     (let bounds = Bounds img;
          count = real_of_int (Dx bounds * Dy bounds);
          (sumR, sumG, sumB, sumA) =
             forLoop (MinY bounds) (MaxY bounds) (\<lambda>y.
               forLoop (MinX bounds) (MaxX bounds) (\<lambda>x (sumR, sumG, sumB, sumA).
                 case At img (x, y) of (r, g, b, a) \<Rightarrow>
                   (sumR + float8 r, sumG + float8 g, sumB + float8 b, sumA + float8 a)))
             (0, 0, 0, 0);
          mR = sumR / count;
          mG = sumG / count;
          mB = sumB / count;
          mA = sumA / count;
          (sumSqDiffR, sumSqDiffG, sumSqDiffB, sumSqDiffA) =
             forLoop (MinY bounds) (MaxY bounds) (\<lambda>y.
               forLoop (MinX bounds) (MaxX bounds) (\<lambda>x (sqR, sqG, sqB, sqA).
                 case At img (x, y) of (r, g, b, a) \<Rightarrow>
                   (let r8 = float8 r; g8 = float8 g; b8 = float8 b; a8 = float8 a
                    in (sqR + (r8 - mR) * (r8 - mR), sqG + (g8 - mG) * (g8 - mG),
                        sqB + (b8 - mB) * (b8 - mB), sqA + (a8 - mA) * (a8 - mA)))))
             (0, 0, 0, 0)
      in \<lparr>meanR = mR, meanG = mG, meanB = mB, meanA = mA,
          stdR = sqrt (sumSqDiffR / count), stdG = sqrt (sumSqDiffG / count),
          stdB = sqrt (sumSqDiffB / count), stdA = sqrt (sumSqDiffA / count)\<rparr>)"

section \<open>computeDiffChunk\<close>

text \<open>The four channel differences of one pixel pair (both branches of \<open>normalized\<close>).\<close>

definition channelDiffs ::
  "Color \<Rightarrow> Color \<Rightarrow> ImageStats \<Rightarrow> ImageStats \<Rightarrow> bool
     \<Rightarrow> float64 \<times> float64 \<times> float64 \<times> float64" where
  "channelDiffs c1 c2 stats1 stats2 normalized =
     (case c1 of (r1, g1, b1, a1) \<Rightarrow> case c2 of (r2, g2, b2, a2) \<Rightarrow>
      let r1f = float8 r1; g1f = float8 g1; b1f = float8 b1; a1f = float8 a1;
          r2f = float8 r2; g2f = float8 g2; b2f = float8 b2; a2f = float8 a2
      in if normalized then
           (let normR1 = normalizePixel r1f (meanR stats1) (stdR stats1);
                normG1 = normalizePixel g1f (meanG stats1) (stdG stats1);
                normB1 = normalizePixel b1f (meanB stats1) (stdB stats1);
                normA1 = normalizePixel a1f (meanA stats1) (stdA stats1);
                normR2 = normalizePixel r2f (meanR stats2) (stdR stats2);
                normG2 = normalizePixel g2f (meanG stats2) (stdG stats2);
                normB2 = normalizePixel b2f (meanB stats2) (stdB stats2);
                normA2 = normalizePixel a2f (meanA stats2) (stdA stats2)
            in (\<bar>normR1 - normR2\<bar>, \<bar>normG1 - normG2\<bar>, \<bar>normB1 - normB2\<bar>, \<bar>normA1 - normA2\<bar>))
         else (\<bar>r1f - r2f\<bar>, \<bar>g1f - g2f\<bar>, \<bar>b1f - b2f\<bar>, \<bar>a1f - a2f\<bar>))"

text \<open>The \<open>switch diffMode\<close> and the hard-coded alpha: the colour written for a pixel.\<close>

definition render :: "string \<Rightarrow> float64 \<Rightarrow> float64 \<Rightarrow> float64 \<Rightarrow> float64 \<Rightarrow> RGBA" where
  "render diffMode scaleFactor rDiff gDiff bDiff =
     (let (r, g, b) =
        (if diffMode = ''bw'' then
           (if rDiff > 0 \<or> gDiff > 0 \<or> bDiff > 0 then (255, 255, 255) else (0, 0, 0))
         else if diffMode = ''gray'' then
           (let avgDiff = (rDiff + gDiff + bDiff) / 3;
                gray = toUint8 (min (avgDiff * scaleFactor) 255)
            in (gray, gray, gray))
         else if diffMode = ''color'' then
           (toUint8 (min (rDiff * scaleFactor) 255),
            toUint8 (min (gDiff * scaleFactor) 255),
            toUint8 (min (bDiff * scaleFactor) 255))
         else
           (toUint8 (min (rDiff * scaleFactor) 255),
            toUint8 (min (gDiff * scaleFactor) 255),
            toUint8 (min (bDiff * scaleFactor) 255)));
          a = 255
      in RGBA r g b a)"

text \<open>
  The state of the loops: the three counters and the raster written so far. The body
  of the inner loop for the pixel at \<open>(x, y)\<close>:
\<close>

type_synonym DiffState = "int64 \<times> int64 \<times> int64 \<times> RGBAImage"

definition diffPixel ::
  "Image \<Rightarrow> Image \<Rightarrow> ImageStats \<Rightarrow> ImageStats \<Rightarrow> bool \<Rightarrow> float64 \<Rightarrow> string
     \<Rightarrow> int \<Rightarrow> int \<Rightarrow> DiffState \<Rightarrow> DiffState" where
  "diffPixel img1 img2 stats1 stats2 normalized scaleFactor diffMode y x st =
     (case st of (count1, count2, diffCount, diffImg) \<Rightarrow>
      case At img1 (x, y) of (r1, g1, b1, a1) \<Rightarrow>
      case At img2 (x, y) of (r2, g2, b2, a2) \<Rightarrow>
      let count1 = (if r1 + g1 + b1 + a1 > 0 then count1 + 1 else count1);
          count2 = (if r2 + g2 + b2 + a2 > 0 then count2 + 1 else count2)
      in case channelDiffs (r1, g1, b1, a1) (r2, g2, b2, a2) stats1 stats2 normalized of
           (rDiff, gDiff, bDiff, aDiff) \<Rightarrow>
      let diffCount = (if rDiff + gDiff + bDiff + aDiff > 0 then diffCount + 1 else diffCount)
      in (count1, count2, diffCount,
          SetRGBA diffImg x y (render diffMode scaleFactor rDiff gDiff bDiff)))"

text \<open>
  \<open>computeDiffChunk\<close> returns its three counts; the raster it has written through the
  pointer \<open>diffImg\<close> is returned as the fourth component.
\<close>

definition computeDiffChunk ::
  "Image \<Rightarrow> Image \<Rightarrow> RGBAImage \<Rightarrow> Chunk \<Rightarrow> ImageStats \<Rightarrow> ImageStats \<Rightarrow> bool \<Rightarrow> float64
     \<Rightarrow> string \<Rightarrow> DiffState" where
  "computeDiffChunk img1 img2 diffImg chunk stats1 stats2 normalized scaleFactor diffMode =
     forLoop (startY chunk) (endY chunk) (\<lambda>y.
       forLoop (startX chunk) (endX chunk)
         (diffPixel img1 img2 stats1 stats2 normalized scaleFactor diffMode y))
     (0, 0, 0, diffImg)"

section \<open>createCompositeImage\<close>

definition createCompositeImage :: "Image \<Rightarrow> Image \<Rightarrow> Image \<Rightarrow> RGBAImage" where
  "createCompositeImage img1 img2 diffImg =
     (let bounds1 = Bounds img1;
          width = Dx bounds1 * 3;
          height = Dy bounds1;
          composite = NewRGBA (image_Rect 0 0 width height);
          composite = draw_Src composite (image_Rect 0 0 (Dx bounds1) (Dy bounds1)) img1
                        (MinX bounds1, MinY bounds1);
          composite = draw_Src composite (image_Rect (Dx bounds1) 0 (Dx bounds1 * 2) (Dy bounds1))
                        diffImg (MinX bounds1, MinY bounds1);
          composite = draw_Src composite (image_Rect (Dx bounds1 * 2) 0 width (Dy bounds1)) img2
                        (MinX bounds1, MinY bounds1)
      in composite)"

section \<open>main\<close>

text \<open>
  The command-line flags, and the collaborators outside the program: the file system,
  the image a file holds when it is a PNG stream (\<open>pngImage\<close>), the PNG encoder, the
  viewer, git, the number of CPUs, and the order in which the runtime happens to run the
  goroutines of the fan-out.
\<close>

record Flags =
  leftPtr :: string
  rightPtr :: string
  outputPtr :: string
  waitPtr :: bool
  viewerPtr :: string
  includeInputsPtr :: bool
  normalizedPtr :: bool
  scalePtr :: float64
  normalizedScalePtr :: float64
  diffModePtr :: string
  verbosePtr :: bool
  gitConfigPtr :: string

record Env =
  osOpen :: "string \<Rightarrow> bool"
  pngImage :: "string \<Rightarrow> Image option"
  NumCPU :: int
  schedule :: "Chunk list \<Rightarrow> Chunk list"
  osCreateTemp :: "string option"
  osCreate :: "string \<Rightarrow> bool"
  pngEncode :: "RGBAImage \<Rightarrow> bool"
  openImage :: "string \<Rightarrow> bool"
  configureGitDifftool :: "bool \<Rightarrow> bool"

datatype Error =
    InvalidGitConfig | GitConfigFailed | MissingInput | InvalidDiffMode
  | OpenLeftFailed | OpenRightFailed | DecodeLeftFailed | DecodeRightFailed
  | DimensionMismatch | DivideByZero
  | CreateTempFailed | CreateOutputFailed | EncodeFailed | OpenImageFailed

datatype Success =
    GitConfigured
  | DiffWritten string int64 int64 int64 RGBAImage

text \<open>What a run does besides returning, in order.\<close>

datatype Event =
    StatsComputed
  | ChunkProcessed Chunk
  | TempFileCreated string
  | OutputFileCreated string
  | ImageEncoded

text \<open>
  \<open>image.Decode\<close>. The program registers one format, PNG (its only image import besides
  \<open>image\<close>, \<open>image/color\<close> and \<open>image/draw\<close> is \<open>image/png\<close>), and Go's PNG reader
  fails on a header whose width or height is not positive: a decoded image always has
  pixels.
\<close>

definition image_Decode :: "Env \<Rightarrow> string \<Rightarrow> Image option" where
  "image_Decode env file =
     (case pngImage env file of None \<Rightarrow> None
      | Some img \<Rightarrow>
          if Dx (Bounds img) \<le> 0 \<or> Dy (Bounds img) \<le> 0 then None else Some img)"

text \<open>The grid chosen from the number of CPUs and the minimum chunk edge of 32.\<close>

definition chunkGrid :: "int \<Rightarrow> Rectangle \<Rightarrow> (int \<times> int) option" where
  "chunkGrid numCPU bounds1 =
     (let numChunksX = floatToInt (sqrt (real_of_int numCPU)) in
      case goDiv numCPU numChunksX of None \<Rightarrow> None
      | Some numChunksY \<Rightarrow>
     (let numChunksY = (if numChunksX * numChunksY < numCPU then numChunksY + 1 else numChunksY);
          minChunkSize = 32 in
      case goDiv (Dx bounds1) numChunksX of None \<Rightarrow> None
      | Some perX \<Rightarrow>
     (let numChunksX = (if perX < minChunkSize then Dx bounds1 sdiv minChunkSize else numChunksX) in
      case goDiv (Dy bounds1) numChunksY of None \<Rightarrow> None
      | Some perY \<Rightarrow>
     (let numChunksY = (if perY < minChunkSize then Dy bounds1 sdiv minChunkSize else numChunksY);
          numChunksX = (if numChunksX < 1 then 1 else numChunksX);
          numChunksY = (if numChunksY < 1 then 1 else numChunksY)
      in Some (numChunksX, numChunksY)))))"

text \<open>
  The fan-out and the join: one \<open>computeDiffChunk\<close> per chunk on the shared raster,
  its three counts added to the totals by \<open>atomic.AddInt64\<close>. The chunks are run one
  after the other, in the order of the list.
\<close>

definition runChunks ::
  "Image \<Rightarrow> Image \<Rightarrow> ImageStats \<Rightarrow> ImageStats \<Rightarrow> bool \<Rightarrow> float64 \<Rightarrow> string
     \<Rightarrow> Chunk list \<Rightarrow> DiffState \<Rightarrow> DiffState" where
  "runChunks img1 img2 stats1 stats2 normalized scaleFactor diffMode cs st =
     fold (\<lambda>c (count1, count2, diffCount, diffImg).
        case computeDiffChunk img1 img2 diffImg c stats1 stats2 normalized scaleFactor diffMode of
          (c1, c2, c3, diffImg') \<Rightarrow> (count1 + c1, count2 + c2, diffCount + c3, diffImg'))
       cs st"

text \<open>The zero value of \<open>ImageStats\<close>, which \<open>var stats1, stats2 ImageStats\<close> declares.\<close>

definition zeroStats :: ImageStats where
  "zeroStats = \<lparr>meanR = 0, meanG = 0, meanB = 0, meanA = 0,
                 stdR = 0, stdG = 0, stdB = 0, stdA = 0\<rparr>"

text \<open>\<open>main\<close> from the creation of the statistics on, once both images are decoded.\<close>

definition processImages :: "Env \<Rightarrow> Flags \<Rightarrow> Image \<Rightarrow> Image \<Rightarrow> Event list \<times> (Error + Success)" where
  "processImages env fl img1 img2 =
     (let bounds1 = Bounds img1;
          (stats1, stats2, ev) =
             (if normalizedPtr fl
              then (calculateImageStats img1, calculateImageStats img2,
                    [StatsComputed, StatsComputed])
              else (zeroStats, zeroStats, []));
          diffImg = NewRGBA bounds1;
          scaleFactor = (if normalizedPtr fl then normalizedScalePtr fl else scalePtr fl)
      in case chunkGrid (NumCPU env) bounds1 of None \<Rightarrow> (ev, Inl DivideByZero)
         | Some (numChunksX, numChunksY) \<Rightarrow>
        (case createChunks bounds1 numChunksX numChunksY of None \<Rightarrow> (ev, Inl DivideByZero)
         | Some chunks \<Rightarrow>
        (let order = schedule env chunks;
             ev = ev @ map ChunkProcessed order
         in case runChunks img1 img2 stats1 stats2 (normalizedPtr fl) scaleFactor (diffModePtr fl)
                   order (0, 0, 0, diffImg) of
              (count1, count2, diffCount, diffImg) \<Rightarrow>
        (case (if outputPtr fl = [] then osCreateTemp env else Some (outputPtr fl)) of
           None \<Rightarrow> (ev, Inl CreateTempFailed)
         | Some outputFile \<Rightarrow>
        (let ev = (if outputPtr fl = [] then ev @ [TempFileCreated outputFile] else ev) in
         if \<not> osCreate env outputFile then (ev, Inl CreateOutputFailed)
         else
        (let ev = ev @ [OutputFileCreated outputFile];
             finalImg = (if includeInputsPtr fl
                         then createCompositeImage img1 img2 (asImage diffImg)
                         else diffImg)
         in if \<not> pngEncode env finalImg then (ev, Inl EncodeFailed)
            else if \<not> openImage env outputFile then (ev @ [ImageEncoded], Inl OpenImageFailed)
            else (ev @ [ImageEncoded],
                  Inr (DiffWritten outputFile count1 count2 diffCount finalImg))))))))"

definition main :: "Env \<Rightarrow> Flags \<Rightarrow> Event list \<times> (Error + Success)" where
  "main env fl =
     (if gitConfigPtr fl \<noteq> [] then
        (if gitConfigPtr fl = ''enable'' then
           ([], if configureGitDifftool env True then Inr GitConfigured else Inl GitConfigFailed)
         else if gitConfigPtr fl = ''disable'' then
           ([], if configureGitDifftool env False then Inr GitConfigured else Inl GitConfigFailed)
         else ([], Inl InvalidGitConfig))
      else if leftPtr fl = [] \<or> rightPtr fl = [] then ([], Inl MissingInput)
      else if diffModePtr fl \<noteq> ''bw'' \<and> diffModePtr fl \<noteq> ''gray'' \<and> diffModePtr fl \<noteq> ''color''
        then ([], Inl InvalidDiffMode)
      else if \<not> osOpen env (leftPtr fl) then ([], Inl OpenLeftFailed)
      else if \<not> osOpen env (rightPtr fl) then ([], Inl OpenRightFailed)
      else case image_Decode env (leftPtr fl) of None \<Rightarrow> ([], Inl DecodeLeftFailed)
      | Some img1 \<Rightarrow>
       (case image_Decode env (rightPtr fl) of None \<Rightarrow> ([], Inl DecodeRightFailed)
        | Some img2 \<Rightarrow>
          if Bounds img1 \<noteq> Bounds img2 then ([], Inl DimensionMismatch)
          else processImages env fl img1 img2))"

section \<open>The test helper createTestImage\<close>

definition createTestImage :: "int \<Rightarrow> int \<Rightarrow> RGBA \<Rightarrow> Image" where
  "createTestImage width height c =
     asImage (forLoop 0 height (\<lambda>y. forLoop 0 width (\<lambda>x img. SetRGBA img x y c))
                (NewRGBA (image_Rect 0 0 width height)))"

section \<open>Notions used to state the properties\<close>

text \<open>
  What the body of the pixel loop observes at a point \<open>p\<close>: whether the left (or right)
  pixel has a non-zero channel sum, the four channel differences, whether their sum is
  non-zero, and the colour written.
\<close>

definition nonZero :: "Image \<Rightarrow> int \<times> int \<Rightarrow> bool" where
  "nonZero img p = (case At img p of (r, g, b, a) \<Rightarrow> r + g + b + a > 0)"

definition pixelDiffs ::
  "Image \<Rightarrow> Image \<Rightarrow> ImageStats \<Rightarrow> ImageStats \<Rightarrow> bool \<Rightarrow> int \<times> int
     \<Rightarrow> float64 \<times> float64 \<times> float64 \<times> float64" where
  "pixelDiffs img1 img2 stats1 stats2 normalized p =
     channelDiffs (At img1 p) (At img2 p) stats1 stats2 normalized"

definition differs ::
  "Image \<Rightarrow> Image \<Rightarrow> ImageStats \<Rightarrow> ImageStats \<Rightarrow> bool \<Rightarrow> int \<times> int \<Rightarrow> bool" where
  "differs img1 img2 stats1 stats2 normalized p =
     (case pixelDiffs img1 img2 stats1 stats2 normalized p of
        (rDiff, gDiff, bDiff, aDiff) \<Rightarrow> rDiff + gDiff + bDiff + aDiff \<noteq> 0)"

definition pixelColour ::
  "Image \<Rightarrow> Image \<Rightarrow> ImageStats \<Rightarrow> ImageStats \<Rightarrow> bool \<Rightarrow> float64 \<Rightarrow> string \<Rightarrow> int \<times> int
     \<Rightarrow> RGBA" where
  "pixelColour img1 img2 stats1 stats2 normalized scaleFactor diffMode p =
     (case pixelDiffs img1 img2 stats1 stats2 normalized p of
        (rDiff, gDiff, bDiff, aDiff) \<Rightarrow> render diffMode scaleFactor rDiff gDiff bDiff)"

text \<open>The number of points of a finite set with a property, as an \<open>int64\<close> counter.\<close>

definition countOn :: "(int \<times> int \<Rightarrow> bool) \<Rightarrow> (int \<times> int) set \<Rightarrow> int64" where
  "countOn P S = of_nat (card {p \<in> S. P p})"

text \<open>A raster after the points of \<open>S\<close> inside its rectangle have received \<open>col\<close>.\<close>

definition paint :: "(int \<times> int \<Rightarrow> RGBA) \<Rightarrow> (int \<times> int) set \<Rightarrow> RGBAImage \<Rightarrow> RGBAImage" where
  "paint col S m = m\<lparr>Pix := (\<lambda>p. if p \<in> S \<and> In p (Rect m) then col p else Pix m p)\<rparr>"

text \<open>The chunk that is the whole of a rectangle.\<close>

definition wholeChunk :: "Rectangle \<Rightarrow> Chunk" where
  "wholeChunk b = \<lparr>startX = MinX b, endX = MaxX b, startY = MinY b, endY = MaxY b\<rparr>"

text \<open>The points of a chunk in the order the two loops visit them, row by row.\<close>

definition pixelList :: "Chunk \<Rightarrow> (int \<times> int) list" where
  "pixelList c = concat (map (\<lambda>y. map (\<lambda>x. (x, y)) [startX c..endX c - 1]) [startY c..endY c - 1])"

text \<open>One step of the pixel loop, as a function of the point.\<close>

definition pixelStep ::
  "Image \<Rightarrow> Image \<Rightarrow> ImageStats \<Rightarrow> ImageStats \<Rightarrow> bool \<Rightarrow> float64 \<Rightarrow> string
     \<Rightarrow> int \<times> int \<Rightarrow> DiffState \<Rightarrow> DiffState" where
  "pixelStep img1 img2 stats1 stats2 normalized scaleFactor diffMode p =
     diffPixel img1 img2 stats1 stats2 normalized scaleFactor diffMode (snd p) (fst p)"

text \<open>The count of differing pixels and the raster in the result of \<open>computeDiffChunk\<close>.\<close>

definition diffCountOf :: "DiffState \<Rightarrow> int64" where
  "diffCountOf st = fst (snd (snd st))"

definition rasterOf :: "DiffState \<Rightarrow> RGBAImage" where
  "rasterOf st = snd (snd (snd st))"

text \<open>
  The chunk of row \<open>i\<close> and column \<open>j\<close> when no operation overflows, and the grid of
  these chunks in the order in which \<open>createChunks\<close> yields them.
\<close>

definition chunkAtExact :: "Rectangle \<Rightarrow> int \<Rightarrow> int \<Rightarrow> int \<Rightarrow> int \<Rightarrow> int \<Rightarrow> int \<Rightarrow> Chunk" where
  "chunkAtExact b nx ny cw ch i j =
     \<lparr>startX = MinX b + j * cw,
      endX = (if j = nx - 1 then MaxX b else MinX b + j * cw + cw),
      startY = MinY b + i * ch,
      endY = (if i = ny - 1 then MaxY b else MinY b + i * ch + ch)\<rparr>"

definition chunkGridList :: "Rectangle \<Rightarrow> int \<Rightarrow> int \<Rightarrow> int \<Rightarrow> int \<Rightarrow> Chunk list" where
  "chunkGridList b nx ny cw ch =
     concat (map (\<lambda>i. map (chunkAtExact b nx ny cw ch i) [0..nx - 1]) [0..ny - 1])"

text \<open>A rectangle whose coordinates, width and height are values of Go's \<open>int\<close>.\<close>

definition fitsRect :: "Rectangle \<Rightarrow> bool" where
  "fitsRect b = (fitsInt64 (MinX b) \<and> fitsInt64 (MaxX b) \<and> fitsInt64 (MinY b)
     \<and> fitsInt64 (MaxY b) \<and> fitsInt64 (Dx b) \<and> fitsInt64 (Dy b))"






section \<open>Example inputs\<close>

text \<open>
  An environment in which every collaborator succeeds, the file \<open>l.png\<close> holds the image
  \<open>l\<close> and any other file the image \<open>r\<close>, the encoder rejects an image without pixels
  (as Go's \<open>png.Encode\<close> does), there is one CPU, and the goroutines run in the order
  of the chunks; and the default flags with the two file names.
\<close>

definition exampleEnv :: "Image \<Rightarrow> Image \<Rightarrow> Env" where
  "exampleEnv l r =
     \<lparr>osOpen = (\<lambda>f. True),
      pngImage = (\<lambda>f. if f = ''l.png'' then Some l else Some r),
      NumCPU = 1, schedule = (\<lambda>cs. cs), osCreateTemp = Some ''tmp.png'',
      osCreate = (\<lambda>f. True), pngEncode = (\<lambda>m. 0 < Dx (Rect m) \<and> 0 < Dy (Rect m)),
      openImage = (\<lambda>f. True), configureGitDifftool = (\<lambda>b. True)\<rparr>"

definition exampleFlags :: Flags where
  "exampleFlags =
     \<lparr>leftPtr = ''l.png'', rightPtr = ''r.png'', outputPtr = [], waitPtr = False,
      viewerPtr = [], includeInputsPtr = False, normalizedPtr = False, scalePtr = 2,
      normalizedScalePtr = 50, diffModePtr = ''color'', verbosePtr = False, gitConfigPtr = []\<rparr>"

section \<open>Loops as folds over ranges\<close>

lemma forLoop_fold: "forLoop i n body s = fold body [i..n - 1] s"
proof (induction i n body s rule: forLoop.induct)
  case (1 i n body s)
  show ?case
  proof (cases "i < n")
    case True
    then have "[i..n - 1] = i # [i + 1..n - 1]"
      by (simp add: upto_rec1)
    with True 1 show ?thesis
      by (simp add: forLoop.simps [of i])
  next
    case False
    then show ?thesis
      by (simp add: forLoop.simps [of i])
  qed
qed

lemma forLoop_fold_fun: "forLoop i n body = fold body [i..n - 1]"
  by (rule ext) (rule forLoop_fold)

lemma fold_snoc_map: "fold (\<lambda>j acc. acc @ [f j]) xs acc = acc @ map f xs"
  by (induction xs arbitrary: acc) simp_all

lemma fold_snoc_map_fun: "fold (\<lambda>j acc. acc @ [f j]) xs = (\<lambda>acc. acc @ map f xs)"
  by (rule ext) (rule fold_snoc_map)

lemma fold_snoc_concat:
  "fold (\<lambda>i acc. acc @ g i) xs acc = acc @ concat (map g xs)"
  by (induction xs arbitrary: acc) simp_all

lemma wrap64_id: "fitsInt64 k \<Longrightarrow> wrap64 k = k"
  by (simp add: wrap64_def fitsInt64_def)

lemma createChunks_eq:
  assumes "numChunksX \<noteq> 0" "numChunksY \<noteq> 0"
  shows "createChunks bounds numChunksX numChunksY =
     Some (concat (map (\<lambda>i. map (chunkAt bounds numChunksX numChunksY
                 (wrap64 (wrap64 (Dx bounds) sdiv numChunksX))
                 (wrap64 (wrap64 (Dy bounds) sdiv numChunksY)) i)
               [0..numChunksX - 1]) [0..numChunksY - 1]))"
  using assms
  by (simp add: createChunks_def goDiv_def forLoop_fold_fun fold_snoc_map_fun fold_snoc_concat)

section \<open>What computeDiffChunk computes\<close>

lemma fold_nested_pixels:
  "fold (\<lambda>y. fold (\<lambda>x. F (x, y)) xs) ys s = fold F (concat (map (\<lambda>y. map (\<lambda>x. (x, y)) xs) ys)) s"
proof (induction ys arbitrary: s)
  case Nil
  show ?case by simp
next
  case (Cons y ys)
  have "fold (\<lambda>x. F (x, y)) xs s = fold F (map (\<lambda>x. (x, y)) xs) s" for s
    by (simp add: fold_map comp_def)
  with Cons show ?case by simp
qed

lemma set_pixelList: "set (pixelList c) = pixelsOf c"
  by (auto simp: pixelList_def pixelsOf_def)

lemma pixelList_product:
  "pixelList c = map prod.swap (List.product [startY c..endY c - 1] [startX c..endX c - 1])"
  by (simp add: pixelList_def List.product_concat_map map_concat comp_def)

lemma distinct_pixelList: "distinct (pixelList c)"
  unfolding pixelList_product
  by (simp add: distinct_map distinct_product)

lemma finite_pixelsOf: "finite (pixelsOf c)"
  by (simp add: pixelsOf_def)

lemma diffPixel_eq:
  "diffPixel img1 img2 stats1 stats2 normalized scaleFactor diffMode y x (c1, c2, c3, m) =
     (c1 + (if nonZero img1 (x, y) then 1 else 0),
      c2 + (if nonZero img2 (x, y) then 1 else 0),
      c3 + (if differs img1 img2 stats1 stats2 normalized (x, y) then 1 else 0),
      SetRGBA m x y (pixelColour img1 img2 stats1 stats2 normalized scaleFactor diffMode (x, y)))"
proof -
  obtain r1 g1 b1 a1 where c1: "At img1 (x, y) = (r1, g1, b1, a1)"
    by (cases "At img1 (x, y)") auto
  obtain r2 g2 b2 a2 where c2: "At img2 (x, y) = (r2, g2, b2, a2)"
    by (cases "At img2 (x, y)") auto
  obtain rd gd bd ad where d:
    "channelDiffs (r1, g1, b1, a1) (r2, g2, b2, a2) stats1 stats2 normalized = (rd, gd, bd, ad)"
    by (cases "channelDiffs (r1, g1, b1, a1) (r2, g2, b2, a2) stats1 stats2 normalized") auto
  have nonneg: "0 \<le> rd" "0 \<le> gd" "0 \<le> bd" "0 \<le> ad"
    using d by (auto simp: channelDiffs_def Let_def split: if_splits)
  then have "(rd + gd + bd + ad > 0) = (rd + gd + bd + ad \<noteq> 0)"
    by linarith
  then show ?thesis
    by (simp add: diffPixel_def nonZero_def differs_def pixelColour_def pixelDiffs_def c1 c2 d)
qed

lemma Rect_SetRGBA: "Rect (SetRGBA m x y c) = Rect m"
  by (simp add: SetRGBA_def)

lemma Rect_paint: "Rect (paint col S m) = Rect m"
  by (simp add: paint_def)

lemma paint_empty: "paint col {} m = m"
  by (simp add: paint_def)

lemma paint_SetRGBA: "paint col S (SetRGBA m x y (col (x, y))) = paint col (insert (x, y) S) m"
  by (auto simp: paint_def SetRGBA_def fun_eq_iff)

lemma paint_paint: "paint col T (paint col S m) = paint col (S \<union> T) m"
  by (auto simp: paint_def fun_eq_iff)

lemma SetRGBA_paint: "SetRGBA m x y (col (x, y)) = paint col {(x, y)} m"
  by (auto simp: paint_def SetRGBA_def fun_eq_iff)

lemma fold_pixelStep:
  "fold (pixelStep img1 img2 stats1 stats2 normalized scaleFactor diffMode) ps (c1, c2, c3, m) =
     (c1 + (\<Sum>p\<leftarrow>ps. if nonZero img1 p then 1 else 0),
      c2 + (\<Sum>p\<leftarrow>ps. if nonZero img2 p then 1 else 0),
      c3 + (\<Sum>p\<leftarrow>ps. if differs img1 img2 stats1 stats2 normalized p then 1 else 0),
      paint (pixelColour img1 img2 stats1 stats2 normalized scaleFactor diffMode) (set ps) m)"
proof (induction ps arbitrary: c1 c2 c3 m)
  case Nil
  show ?case by (simp add: paint_empty)
next
  case (Cons p ps)
  obtain x y where p: "p = (x, y)" by (cases p) auto
  let ?F = "pixelStep img1 img2 stats1 stats2 normalized scaleFactor diffMode"
  let ?col = "pixelColour img1 img2 stats1 stats2 normalized scaleFactor diffMode"
  have step: "?F p (c1, c2, c3, m) =
     (c1 + (if nonZero img1 p then 1 else 0),
      c2 + (if nonZero img2 p then 1 else 0),
      c3 + (if differs img1 img2 stats1 stats2 normalized p then 1 else 0),
      SetRGBA m x y (?col (x, y)))"
    by (simp add: p pixelStep_def diffPixel_eq)
  have "fold ?F (p # ps) (c1, c2, c3, m) = fold ?F ps (?F p (c1, c2, c3, m))"
    by simp
  also have "\<dots> =
     (c1 + (if nonZero img1 p then 1 else 0) + (\<Sum>p\<leftarrow>ps. if nonZero img1 p then 1 else 0),
      c2 + (if nonZero img2 p then 1 else 0) + (\<Sum>p\<leftarrow>ps. if nonZero img2 p then 1 else 0),
      c3 + (if differs img1 img2 stats1 stats2 normalized p then 1 else 0)
         + (\<Sum>p\<leftarrow>ps. if differs img1 img2 stats1 stats2 normalized p then 1 else 0),
      paint ?col (set ps) (SetRGBA m x y (?col (x, y))))"
    unfolding step by (rule Cons.IH)
  finally show ?case
    by (simp add: paint_SetRGBA add.assoc p)
qed

lemma sum_list_indicator:
  assumes "distinct ps"
  shows "(\<Sum>p\<leftarrow>ps. if P p then 1 else 0) = countOn P (set ps)"
proof -
  have "(\<Sum>p\<leftarrow>ps. if P p then 1 else (0::int64)) = (\<Sum>p\<in>set ps. if P p then 1 else 0)"
    using assms by (simp add: sum_list_distinct_conv_sum_set)
  also have "\<dots> = of_nat (card {p \<in> set ps. P p})"
    by (simp add: sum.If_cases Int_def)
  finally show ?thesis by (simp add: countOn_def)
qed

lemma computeDiffChunk_eq:
  "computeDiffChunk img1 img2 diffImg chunk stats1 stats2 normalized scaleFactor diffMode =
     (countOn (nonZero img1) (pixelsOf chunk),
      countOn (nonZero img2) (pixelsOf chunk),
      countOn (differs img1 img2 stats1 stats2 normalized) (pixelsOf chunk),
      paint (pixelColour img1 img2 stats1 stats2 normalized scaleFactor diffMode)
        (pixelsOf chunk) diffImg)"
proof -
  let ?F = "pixelStep img1 img2 stats1 stats2 normalized scaleFactor diffMode"
  have body: "diffPixel img1 img2 stats1 stats2 normalized scaleFactor diffMode y =
      (\<lambda>x. ?F (x, y))" for y
    by (simp add: pixelStep_def)
  have "computeDiffChunk img1 img2 diffImg chunk stats1 stats2 normalized scaleFactor diffMode =
      fold ?F (pixelList chunk) (0, 0, 0, diffImg)"
    unfolding computeDiffChunk_def forLoop_fold_fun pixelList_def body
    by (rule fold_nested_pixels)
  then show ?thesis
    by (simp add: fold_pixelStep sum_list_indicator distinct_pixelList set_pixelList)
qed

section \<open>Claim C2: normalizePixel\<close>

text \<open>
  C2. For every value, mean and std, \<open>normalizePixel\<close> returns \<open>(value - mean) / std\<close>
  when std is not 0 and the value itself, unchanged, when std is 0; the four examples of
  the specification evaluate to 2, 100, 0 and 2.
\<close>

theorem normalizePixel_spec:
  "(std \<noteq> 0 \<longrightarrow> normalizePixel v mean std = (v - mean) / std)
   \<and> (std = 0 \<longrightarrow> normalizePixel v mean std = v)
   \<and> normalizePixel 100 50 25 = 2
   \<and> normalizePixel 100 50 0 = 100
   \<and> normalizePixel 50 50 10 = 0
   \<and> normalizePixel 100 150 (- 25) = 2"
  by (simp add: normalizePixel_def)

theorem normalizePixel_spec_witness:
  "(4::real) \<noteq> 0 \<and> normalizePixel 9 1 4 = 2 \<and> normalizePixel 9 1 0 = 9"
  using normalizePixel_spec [of 4 9 1] normalizePixel_spec [of 0 9 1] by simp

section \<open>Claim C7: the colour-mode example of the tests\<close>

lemma createTestImage_2x2:
  "createTestImage 2 2 c =
     \<lparr>Bounds = image_Rect 0 0 2 2,
      At = (\<lambda>p. if In p (image_Rect 0 0 2 2) then RGBA_RGBA c else RGBA_RGBA (RGBA 0 0 0 0))\<rparr>"
  by (simp add: createTestImage_def forLoop_fold_fun upto_rec1 asImage_def SetRGBA_def
      NewRGBA_def image_Rect_def In_def fun_eq_iff) auto

text \<open>
  C7. Without normalization, in mode \<open>color\<close> and with scale factor 1, the full 2x2 chunk
  of a left image uniformly \<open>{100,150,200,255}\<close> and a right image uniformly
  \<open>{120,170,220,255}\<close> gives the counts \<open>(4, 4, 4)\<close> and a raster holding
  \<open>{20,20,20,255}\<close> at each of the four coordinates (and nothing written elsewhere).
\<close>

theorem computeDiffChunk_color_example:
  "computeDiffChunk (createTestImage 2 2 (RGBA 100 150 200 255))
      (createTestImage 2 2 (RGBA 120 170 220 255))
      (NewRGBA (image_Rect 0 0 2 2)) \<lparr>startX = 0, endX = 2, startY = 0, endY = 2\<rparr>
      stats1 stats2 False 1 ''color''
   = (4, 4, 4,
      \<lparr>Pix = (\<lambda>p. if p \<in> {(0, 0), (1, 0), (0, 1), (1, 1)} then RGBA 20 20 20 255
                   else RGBA 0 0 0 0),
       Rect = image_Rect 0 0 2 2\<rparr>)"
  by (simp add: computeDiffChunk_def forLoop_fold_fun upto_rec1 createTestImage_2x2
      diffPixel_def In_def image_Rect_def RGBA_RGBA_def widen_def channelDiffs_def float8_def
      render_def toUint8_def floatToInt_def SetRGBA_def NewRGBA_def)
    (auto simp: fun_eq_iff)

section \<open>Rendering of one pixel\<close>




lemma render_fallback:
  "diffMode \<noteq> ''bw'' \<Longrightarrow> diffMode \<noteq> ''gray'' \<Longrightarrow>
   render diffMode scaleFactor rDiff gDiff bDiff = render ''color'' scaleFactor rDiff gDiff bDiff"
  by (simp add: render_def)

lemma pixelColour_fallback:
  "diffMode \<noteq> ''bw'' \<Longrightarrow> diffMode \<noteq> ''gray'' \<Longrightarrow>
   pixelColour img1 img2 stats1 stats2 normalized scaleFactor diffMode =
   pixelColour img1 img2 stats1 stats2 normalized scaleFactor ''color''"
proof
  fix p
  assume "diffMode \<noteq> ''bw''" "diffMode \<noteq> ''gray''"
  then have "render diffMode scaleFactor rDiff gDiff bDiff = render ''color'' scaleFactor rDiff gDiff bDiff"
    for rDiff gDiff bDiff
    by (rule render_fallback)
  then show "pixelColour img1 img2 stats1 stats2 normalized scaleFactor diffMode p =
      pixelColour img1 img2 stats1 stats2 normalized scaleFactor ''color'' p"
    unfolding pixelColour_def by (cases "pixelDiffs img1 img2 stats1 stats2 normalized p") simp
qed


lemma cA_render: "cA (render diffMode scaleFactor rDiff gDiff bDiff) = 255"
  by (simp add: render_def Let_def split: prod.splits)

lemma render_bw:
  "render ''bw'' scaleFactor rDiff gDiff bDiff =
     (if rDiff > 0 \<or> gDiff > 0 \<or> bDiff > 0 then RGBA 255 255 255 255 else RGBA 0 0 0 255)"
  by (simp add: render_def)

lemma Pix_paint: "Pix (paint col S m) p = (if p \<in> S \<and> In p (Rect m) then col p else Pix m p)"
  by (simp add: paint_def)

lemma rasterOf_computeDiffChunk:
  "rasterOf (computeDiffChunk img1 img2 diffImg chunk stats1 stats2 normalized scaleFactor diffMode) =
     paint (pixelColour img1 img2 stats1 stats2 normalized scaleFactor diffMode) (pixelsOf chunk) diffImg"
  by (simp add: computeDiffChunk_eq rasterOf_def)

lemma diffCountOf_computeDiffChunk:
  "diffCountOf (computeDiffChunk img1 img2 diffImg chunk stats1 stats2 normalized scaleFactor diffMode) =
     countOn (differs img1 img2 stats1 stats2 normalized) (pixelsOf chunk)"
  by (simp add: computeDiffChunk_eq diffCountOf_def)

lemma createTestImage_1x1:
  "createTestImage 1 1 c =
     \<lparr>Bounds = image_Rect 0 0 1 1,
      At = (\<lambda>p. if In p (image_Rect 0 0 1 1) then RGBA_RGBA c else RGBA_RGBA (RGBA 0 0 0 0))\<rparr>"
  by (simp add: createTestImage_def forLoop_fold_fun upto_rec1 asImage_def SetRGBA_def
      NewRGBA_def image_Rect_def In_def fun_eq_iff)

lemmas eval_pixel = computeDiffChunk_def forLoop_fold_fun upto_rec1 createTestImage_1x1
      diffPixel_def In_def image_Rect_def RGBA_RGBA_def widen_def channelDiffs_def float8_def
      render_def toUint8_def floatToInt_def SetRGBA_def NewRGBA_def rasterOf_def diffCountOf_def
      pixelsOf_def pixelDiffs_def

section \<open>Claim C6: alpha differences\<close>

text \<open>
  C6. An alpha difference is counted but never shown. The count of differing pixels that
  \<open>computeDiffChunk\<close> returns is the number of points of the chunk at which the sum of
  the four channel differences, alpha included, is not zero, whatever the rendering mode;
  every pixel written has alpha 255; in mode \<open>bw\<close> the pixel is white when one of the R,
  G, B differences is positive and black otherwise, whatever the alpha difference.
\<close>

theorem alpha_counted_not_rendered:
  "diffCountOf (computeDiffChunk img1 img2 diffImg chunk stats1 stats2 normalized scaleFactor diffMode) =
     countOn (differs img1 img2 stats1 stats2 normalized) (pixelsOf chunk)
   \<and> (\<forall>p \<in> pixelsOf chunk. In p (Rect diffImg) \<longrightarrow>
        cA (Pix (rasterOf (computeDiffChunk img1 img2 diffImg chunk stats1 stats2 normalized
              scaleFactor diffMode)) p) = 255
        \<and> (diffMode = ''bw'' \<longrightarrow>
             Pix (rasterOf (computeDiffChunk img1 img2 diffImg chunk stats1 stats2 normalized
               scaleFactor diffMode)) p =
             (case pixelDiffs img1 img2 stats1 stats2 normalized p of
                (rDiff, gDiff, bDiff, aDiff) \<Rightarrow>
                  if rDiff > 0 \<or> gDiff > 0 \<or> bDiff > 0 then RGBA 255 255 255 255
                  else RGBA 0 0 0 255)))"
  unfolding rasterOf_computeDiffChunk diffCountOf_computeDiffChunk
  by (auto simp: Pix_paint pixelColour_def cA_render render_bw split: prod.splits)

theorem alpha_counted_not_rendered_witness:
  "(0, 0) \<in> pixelsOf \<lparr>startX = 0, endX = 1, startY = 0, endY = 1\<rparr>
   \<and> In (0, 0) (Rect (NewRGBA (image_Rect 0 0 1 1)))
   \<and> pixelDiffs (createTestImage 1 1 (RGBA 7 7 7 255)) (createTestImage 1 1 (RGBA 7 7 7 254))
        zeroStats zeroStats False (0, 0) = (0, 0, 0, 1)
   \<and> diffCountOf (computeDiffChunk (createTestImage 1 1 (RGBA 7 7 7 255))
          (createTestImage 1 1 (RGBA 7 7 7 254)) (NewRGBA (image_Rect 0 0 1 1))
          \<lparr>startX = 0, endX = 1, startY = 0, endY = 1\<rparr> zeroStats zeroStats False 2 ''bw'') = 1
   \<and> Pix (rasterOf (computeDiffChunk (createTestImage 1 1 (RGBA 7 7 7 255))
          (createTestImage 1 1 (RGBA 7 7 7 254)) (NewRGBA (image_Rect 0 0 1 1))
          \<lparr>startX = 0, endX = 1, startY = 0, endY = 1\<rparr> zeroStats zeroStats False 2 ''bw'')) (0, 0)
       = RGBA 0 0 0 255"
  using alpha_counted_not_rendered [of "createTestImage 1 1 (RGBA 7 7 7 255)" "createTestImage 1 1 (RGBA 7 7 7 254)"
      "NewRGBA (image_Rect 0 0 1 1)" "\<lparr>startX = 0, endX = 1, startY = 0, endY = 1\<rparr>"
      zeroStats zeroStats False 2 "''bw''"]
  by (simp add: eval_pixel)

section \<open>Runs of main on small inputs\<close>

lemma chunkGrid_1x1: "chunkGrid 1 (image_Rect 0 0 1 1) = Some (1, 1)"
  by (simp add: signed_divide_int_def chunkGrid_def floatToInt_def goDiv_def wrap64_def
      image_Rect_def Dx_def Dy_def Let_def)

lemma createChunks_1x1:
  "createChunks (image_Rect 0 0 1 1) 1 1 = Some [\<lparr>startX = 0, endX = 1, startY = 0, endY = 1\<rparr>]"
  by (simp add: signed_divide_int_def createChunks_eq chunkAt_def wrap64_def image_Rect_def
      Dx_def Dy_def)

lemma Bounds_createTestImage_0x0: "Bounds (createTestImage 0 0 c) = image_Rect 0 0 0 0"
  by (simp add: createTestImage_def forLoop_fold_fun asImage_def NewRGBA_def)

lemma main_color_run:
  "main (exampleEnv (createTestImage 1 1 (RGBA 7 7 7 255)) (createTestImage 1 1 (RGBA 9 7 7 255)))
      exampleFlags
    = ([ChunkProcessed \<lparr>startX = 0, endX = 1, startY = 0, endY = 1\<rparr>, TempFileCreated ''tmp.png'',
        OutputFileCreated ''tmp.png'', ImageEncoded],
       Inr (DiffWritten ''tmp.png'' 1 1 1
         \<lparr>Pix = (\<lambda>p. if p = (0, 0) then RGBA 4 0 0 255 else RGBA 0 0 0 0),
          Rect = image_Rect 0 0 1 1\<rparr>))"
  apply (simp add: main_def image_Decode_def exampleEnv_def exampleFlags_def processImages_def
      createTestImage_1x1 chunkGrid_1x1 createChunks_1x1 runChunks_def)
  apply (simp add: eval_pixel Dx_def Dy_def)
  apply (auto simp: fun_eq_iff)
  done

section \<open>Claim C3: failing fast on a precondition violation\<close>

text \<open>
  C3. When the image held by the left or the right file has zero area, or the two images
  have different bounds (mismatched dimensions in particular), \<open>main\<close> fails before any
  statistics are computed, before any chunk is processed and before any file is created:
  no event happens. An image of zero area is rejected when it is decoded (the left file
  first, then the right one); two images with pixels and different bounds are rejected by
  the comparison of the bounds.
\<close>

theorem precondition_fails_fast:
  "gitConfigPtr fl = [] \<and> leftPtr fl \<noteq> [] \<and> rightPtr fl \<noteq> []
   \<and> (diffModePtr fl = ''bw'' \<or> diffModePtr fl = ''gray'' \<or> diffModePtr fl = ''color'')
   \<and> osOpen env (leftPtr fl) \<and> osOpen env (rightPtr fl)
   \<and> pngImage env (leftPtr fl) = Some img1 \<and> pngImage env (rightPtr fl) = Some img2
   \<and> (Dx (Bounds img1) * Dy (Bounds img1) = 0 \<or> Dx (Bounds img2) * Dy (Bounds img2) = 0
        \<or> Bounds img1 \<noteq> Bounds img2)
   \<longrightarrow> main env fl =
         ([], Inl (if Dx (Bounds img1) \<le> 0 \<or> Dy (Bounds img1) \<le> 0 then DecodeLeftFailed
                   else if Dx (Bounds img2) \<le> 0 \<or> Dy (Bounds img2) \<le> 0 then DecodeRightFailed
                   else DimensionMismatch))"
  by (auto simp: main_def image_Decode_def)

theorem precondition_fails_fast_witness:
  "gitConfigPtr exampleFlags = [] \<and> leftPtr exampleFlags \<noteq> [] \<and> rightPtr exampleFlags \<noteq> []
   \<and> diffModePtr exampleFlags = ''color''
   \<and> osOpen (exampleEnv (createTestImage 1 1 (RGBA 7 7 7 255)) (createTestImage 2 2 (RGBA 7 7 7 255)))
        (leftPtr exampleFlags)
   \<and> osOpen (exampleEnv (createTestImage 1 1 (RGBA 7 7 7 255)) (createTestImage 2 2 (RGBA 7 7 7 255)))
        (rightPtr exampleFlags)
   \<and> pngImage (exampleEnv (createTestImage 1 1 (RGBA 7 7 7 255))
        (createTestImage 2 2 (RGBA 7 7 7 255))) (leftPtr exampleFlags)
       = Some (createTestImage 1 1 (RGBA 7 7 7 255))
   \<and> pngImage (exampleEnv (createTestImage 1 1 (RGBA 7 7 7 255))
        (createTestImage 2 2 (RGBA 7 7 7 255))) (rightPtr exampleFlags)
       = Some (createTestImage 2 2 (RGBA 7 7 7 255))
   \<and> Bounds (createTestImage 1 1 (RGBA 7 7 7 255)) \<noteq> Bounds (createTestImage 2 2 (RGBA 7 7 7 255))
   \<and> main (exampleEnv (createTestImage 1 1 (RGBA 7 7 7 255)) (createTestImage 2 2 (RGBA 7 7 7 255)))
        exampleFlags = ([], Inl DimensionMismatch)
   \<and> pngImage (exampleEnv (createTestImage 1 1 (RGBA 7 7 7 255))
        (createTestImage 0 0 (RGBA 7 7 7 255))) (rightPtr exampleFlags)
       = Some (createTestImage 0 0 (RGBA 7 7 7 255))
   \<and> Dx (Bounds (createTestImage 0 0 (RGBA 7 7 7 255)))
        * Dy (Bounds (createTestImage 0 0 (RGBA 7 7 7 255))) = 0
   \<and> main (exampleEnv (createTestImage 1 1 (RGBA 7 7 7 255)) (createTestImage 0 0 (RGBA 7 7 7 255)))
        exampleFlags = ([], Inl DecodeRightFailed)"
  using precondition_fails_fast [of exampleFlags
      "exampleEnv (createTestImage 1 1 (RGBA 7 7 7 255)) (createTestImage 2 2 (RGBA 7 7 7 255))"
      "createTestImage 1 1 (RGBA 7 7 7 255)" "createTestImage 2 2 (RGBA 7 7 7 255)"]
    precondition_fails_fast [of exampleFlags
      "exampleEnv (createTestImage 1 1 (RGBA 7 7 7 255)) (createTestImage 0 0 (RGBA 7 7 7 255))"
      "createTestImage 1 1 (RGBA 7 7 7 255)" "createTestImage 0 0 (RGBA 7 7 7 255)"]
  by (simp add: exampleFlags_def exampleEnv_def createTestImage_1x1 createTestImage_2x2
      Bounds_createTestImage_0x0 image_Rect_def Dx_def Dy_def)

section \<open>Claim C4: an unrecognized diff mode\<close>

lemma computeDiffChunk_fallback:
  "diffMode \<noteq> ''bw'' \<Longrightarrow> diffMode \<noteq> ''gray'' \<Longrightarrow>
   computeDiffChunk img1 img2 diffImg chunk stats1 stats2 normalized scaleFactor diffMode =
   computeDiffChunk img1 img2 diffImg chunk stats1 stats2 normalized scaleFactor ''color''"
  by (simp add: computeDiffChunk_eq pixelColour_fallback [of diffMode])

text \<open>
  C4, as stated, fails: an unrecognized mode is an error in \<open>main\<close>. The run that succeeds
  with \<open>-diff-mode color\<close> is rejected with \<open>-diff-mode sepia\<close>, before any file is opened.
\<close>

theorem unrecognized_mode_rejected_by_main:
  "main (exampleEnv (createTestImage 1 1 (RGBA 7 7 7 255)) (createTestImage 1 1 (RGBA 9 7 7 255)))
      (exampleFlags\<lparr>diffModePtr := ''sepia''\<rparr>) = ([], Inl InvalidDiffMode)
   \<and> main (exampleEnv (createTestImage 1 1 (RGBA 7 7 7 255)) (createTestImage 1 1 (RGBA 9 7 7 255)))
      exampleFlags
    = ([ChunkProcessed \<lparr>startX = 0, endX = 1, startY = 0, endY = 1\<rparr>, TempFileCreated ''tmp.png'',
        OutputFileCreated ''tmp.png'', ImageEncoded],
       Inr (DiffWritten ''tmp.png'' 1 1 1
         \<lparr>Pix = (\<lambda>p. if p = (0, 0) then RGBA 4 0 0 255 else RGBA 0 0 0 0),
          Rect = image_Rect 0 0 1 1\<rparr>))"
  by (simp add: main_color_run) (simp add: main_def exampleFlags_def)

text \<open>
  C4, amended. For every mode string other than \<open>bw\<close>, \<open>gray\<close> and \<open>color\<close>,
  \<open>computeDiffChunk\<close> returns the same counters and the same raster as with \<open>color\<close>;
  \<open>main\<close>, however, validates the flag and fails with the invalid-mode error for such
  a string, before opening any file.
\<close>

theorem unrecognized_mode:
  "(diffMode \<noteq> ''bw'' \<and> diffMode \<noteq> ''gray'' \<and> diffMode \<noteq> ''color'' \<longrightarrow>
      computeDiffChunk img1 img2 diffImg chunk stats1 stats2 normalized scaleFactor diffMode =
      computeDiffChunk img1 img2 diffImg chunk stats1 stats2 normalized scaleFactor ''color'')
   \<and> (gitConfigPtr fl = [] \<and> leftPtr fl \<noteq> [] \<and> rightPtr fl \<noteq> []
        \<and> diffModePtr fl \<noteq> ''bw'' \<and> diffModePtr fl \<noteq> ''gray'' \<and> diffModePtr fl \<noteq> ''color'' \<longrightarrow>
      main env fl = ([], Inl InvalidDiffMode))"
  by (simp add: computeDiffChunk_fallback [of diffMode] main_def)

theorem unrecognized_mode_witness:
  "''sepia'' \<noteq> ''bw'' \<and> ''sepia'' \<noteq> ''gray'' \<and> ''sepia'' \<noteq> ''color''
   \<and> gitConfigPtr (exampleFlags\<lparr>diffModePtr := ''sepia''\<rparr>) = []
   \<and> leftPtr (exampleFlags\<lparr>diffModePtr := ''sepia''\<rparr>) \<noteq> []
   \<and> rightPtr (exampleFlags\<lparr>diffModePtr := ''sepia''\<rparr>) \<noteq> []
   \<and> diffModePtr (exampleFlags\<lparr>diffModePtr := ''sepia''\<rparr>) = ''sepia''
   \<and> computeDiffChunk (createTestImage 1 1 (RGBA 7 7 7 255)) (createTestImage 1 1 (RGBA 9 7 7 255))
        (NewRGBA (image_Rect 0 0 1 1)) \<lparr>startX = 0, endX = 1, startY = 0, endY = 1\<rparr>
        zeroStats zeroStats False 2 ''sepia''
      = computeDiffChunk (createTestImage 1 1 (RGBA 7 7 7 255)) (createTestImage 1 1 (RGBA 9 7 7 255))
        (NewRGBA (image_Rect 0 0 1 1)) \<lparr>startX = 0, endX = 1, startY = 0, endY = 1\<rparr>
        zeroStats zeroStats False 2 ''color''
   \<and> rasterOf (computeDiffChunk (createTestImage 1 1 (RGBA 7 7 7 255))
        (createTestImage 1 1 (RGBA 9 7 7 255))
        (NewRGBA (image_Rect 0 0 1 1)) \<lparr>startX = 0, endX = 1, startY = 0, endY = 1\<rparr>
        zeroStats zeroStats False 2 ''sepia'')
      = \<lparr>Pix = (\<lambda>p. if p = (0, 0) then RGBA 4 0 0 255 else RGBA 0 0 0 0),
         Rect = image_Rect 0 0 1 1\<rparr>
   \<and> main (exampleEnv (createTestImage 1 1 (RGBA 7 7 7 255)) (createTestImage 1 1 (RGBA 9 7 7 255)))
        (exampleFlags\<lparr>diffModePtr := ''sepia''\<rparr>) = ([], Inl InvalidDiffMode)"
  using unrecognized_mode [of "''sepia''" "createTestImage 1 1 (RGBA 7 7 7 255)"
      "createTestImage 1 1 (RGBA 9 7 7 255)" "NewRGBA (image_Rect 0 0 1 1)"
      "\<lparr>startX = 0, endX = 1, startY = 0, endY = 1\<rparr>" zeroStats zeroStats False 2
      "exampleFlags\<lparr>diffModePtr := ''sepia''\<rparr>"
      "exampleEnv (createTestImage 1 1 (RGBA 7 7 7 255)) (createTestImage 1 1 (RGBA 9 7 7 255))"]
  by (simp add: exampleFlags_def eval_pixel) (auto simp: fun_eq_iff)

section \<open>Claim C10: truncation of the rendered channels\<close>


















section \<open>Claim C5: aggregation over a tiling\<close>

lemma pixelsOf_wholeChunk: "pixelsOf (wholeChunk b) = rectPixels b"
  by (simp add: pixelsOf_def wholeChunk_def rectPixels_def)

lemma runChunks_eq:
  "runChunks img1 img2 stats1 stats2 normalized scaleFactor diffMode cs (c1, c2, c3, m) =
     (c1 + (\<Sum>c\<leftarrow>cs. countOn (nonZero img1) (pixelsOf c)),
      c2 + (\<Sum>c\<leftarrow>cs. countOn (nonZero img2) (pixelsOf c)),
      c3 + (\<Sum>c\<leftarrow>cs. countOn (differs img1 img2 stats1 stats2 normalized) (pixelsOf c)),
      paint (pixelColour img1 img2 stats1 stats2 normalized scaleFactor diffMode)
        (\<Union>c \<in> set cs. pixelsOf c) m)"
proof (induction cs arbitrary: c1 c2 c3 m)
  case Nil
  show ?case by (simp add: runChunks_def paint_empty)
next
  case (Cons c cs)
  have "runChunks img1 img2 stats1 stats2 normalized scaleFactor diffMode (c # cs) (c1, c2, c3, m) =
      runChunks img1 img2 stats1 stats2 normalized scaleFactor diffMode cs
        (c1 + countOn (nonZero img1) (pixelsOf c),
         c2 + countOn (nonZero img2) (pixelsOf c),
         c3 + countOn (differs img1 img2 stats1 stats2 normalized) (pixelsOf c),
         paint (pixelColour img1 img2 stats1 stats2 normalized scaleFactor diffMode)
           (pixelsOf c) m)"
    by (simp add: runChunks_def computeDiffChunk_eq)
  then show ?case
    by (simp add: Cons.IH paint_paint add.assoc)
qed

lemma countOn_tiling:
  assumes "exactTiling b cs"
  shows "(\<Sum>c\<leftarrow>cs. countOn P (pixelsOf c)) = countOn P (rectPixels b)"
proof -
  let ?F = "\<lambda>i. {p \<in> pixelsOf (cs ! i). P p}"
  have disj: "\<forall>i\<in>{..<length cs}. \<forall>j\<in>{..<length cs}. i \<noteq> j \<longrightarrow> ?F i \<inter> ?F j = {}"
    using assms unfolding exactTiling_def by blast
  have fin: "\<forall>i\<in>{..<length cs}. finite (?F i)"
    by (simp add: finite_pixelsOf)
  have un: "(\<Union>i\<in>{..<length cs}. ?F i) = {p \<in> rectPixels b. P p}"
  proof -
    have "(\<Union>c \<in> set cs. pixelsOf c) = rectPixels b"
      using assms by (simp add: exactTiling_def)
    then have "{p \<in> rectPixels b. P p} = (\<Union>c \<in> set cs. {p \<in> pixelsOf c. P p})"
      by blast
    also have "\<dots> = (\<Union>i\<in>{..<length cs}. ?F i)"
      by (fastforce simp: in_set_conv_nth)
    finally show ?thesis by simp
  qed
  have "(\<Sum>c\<leftarrow>cs. countOn P (pixelsOf c)) = (\<Sum>i<length cs. countOn P (pixelsOf (cs ! i)))"
    by (simp add: sum_list_sum_nth atLeast0LessThan)
  also have "\<dots> = of_nat (\<Sum>i<length cs. card (?F i))"
    by (simp add: countOn_def)
  also have "(\<Sum>i<length cs. card (?F i)) = card (\<Union>i\<in>{..<length cs}. ?F i)"
    by (rule card_UN_disjoint [symmetric]) (use fin disj in auto)
  finally show ?thesis
    by (simp add: un countOn_def)
qed

lemma exactTiling_mset:
  assumes "exactTiling b cs" "mset cs' = mset cs"
  shows "(\<Sum>c\<leftarrow>cs'. countOn P (pixelsOf c)) = countOn P (rectPixels b)"
    and "(\<Union>c \<in> set cs'. pixelsOf c) = rectPixels b"
proof -
  have "(\<Sum>c\<leftarrow>cs'. countOn P (pixelsOf c)) = sum_mset (image_mset (\<lambda>c. countOn P (pixelsOf c)) (mset cs'))"
    by (simp add: sum_mset_sum_list [symmetric])
  also have "\<dots> = (\<Sum>c\<leftarrow>cs. countOn P (pixelsOf c))"
    unfolding assms(2) by (simp add: sum_mset_sum_list [symmetric])
  finally show "(\<Sum>c\<leftarrow>cs'. countOn P (pixelsOf c)) = countOn P (rectPixels b)"
    by (simp add: countOn_tiling [OF assms(1)])
  have "set cs' = set cs"
    using assms(2) by (rule mset_eq_setD)
  then show "(\<Union>c \<in> set cs'. pixelsOf c) = rectPixels b"
    using assms(1) by (simp add: exactTiling_def)
qed

text \<open>
  C5. Running \<open>computeDiffChunk\<close> on the chunks of any exact tiling of a rectangle, in
  any order (any permutation \<open>cs'\<close> of the tiling \<open>cs\<close>), on the shared raster, and adding
  the three counts of each run to the totals, gives the same three counters and the same
  raster as one run of \<open>computeDiffChunk\<close> on the whole rectangle as a single chunk; when
  the raster has the bounds of the tiling, every pixel of the bounds then holds the colour
  computed for it. The result is a function of the inputs and the configuration alone.
\<close>

theorem chunked_run_equals_whole:
  "exactTiling b cs \<and> mset cs' = mset cs \<longrightarrow>
     runChunks img1 img2 stats1 stats2 normalized scaleFactor diffMode cs' (0, 0, 0, diffImg) =
       computeDiffChunk img1 img2 diffImg (wholeChunk b) stats1 stats2 normalized scaleFactor diffMode
     \<and> (Rect diffImg = b \<longrightarrow>
          (\<forall>p \<in> rectPixels b.
             Pix (rasterOf (runChunks img1 img2 stats1 stats2 normalized scaleFactor diffMode cs'
                    (0, 0, 0, diffImg))) p =
             pixelColour img1 img2 stats1 stats2 normalized scaleFactor diffMode p))"
proof (intro impI, elim conjE)
  assume t: "exactTiling b cs" and m: "mset cs' = mset cs"
  note e = exactTiling_mset [OF t m]
  have run: "runChunks img1 img2 stats1 stats2 normalized scaleFactor diffMode cs' (0, 0, 0, diffImg) =
      (countOn (nonZero img1) (rectPixels b), countOn (nonZero img2) (rectPixels b),
       countOn (differs img1 img2 stats1 stats2 normalized) (rectPixels b),
       paint (pixelColour img1 img2 stats1 stats2 normalized scaleFactor diffMode)
         (rectPixels b) diffImg)"
    by (simp add: runChunks_eq e)
  show "runChunks img1 img2 stats1 stats2 normalized scaleFactor diffMode cs' (0, 0, 0, diffImg) =
       computeDiffChunk img1 img2 diffImg (wholeChunk b) stats1 stats2 normalized scaleFactor diffMode
     \<and> (Rect diffImg = b \<longrightarrow>
          (\<forall>p \<in> rectPixels b.
             Pix (rasterOf (runChunks img1 img2 stats1 stats2 normalized scaleFactor diffMode cs'
                    (0, 0, 0, diffImg))) p =
             pixelColour img1 img2 stats1 stats2 normalized scaleFactor diffMode p))"
    unfolding run
    by (auto simp: computeDiffChunk_eq pixelsOf_wholeChunk rasterOf_def Pix_paint rectPixels_def In_def)
qed

lemma exactTiling_example:
  "exactTiling (image_Rect 0 0 2 1)
     [\<lparr>startX = 0, endX = 1, startY = 0, endY = 1\<rparr>, \<lparr>startX = 1, endX = 2, startY = 0, endY = 1\<rparr>]"
  by (auto simp: exactTiling_def pixelsOf_def rectPixels_def image_Rect_def less_Suc_eq nth_Cons')

lemma createTestImage_2x1:
  "createTestImage 2 1 c =
     \<lparr>Bounds = image_Rect 0 0 2 1,
      At = (\<lambda>p. if In p (image_Rect 0 0 2 1) then RGBA_RGBA c else RGBA_RGBA (RGBA 0 0 0 0))\<rparr>"
  by (simp add: createTestImage_def forLoop_fold_fun upto_rec1 asImage_def SetRGBA_def
      NewRGBA_def image_Rect_def In_def fun_eq_iff)

theorem chunked_run_equals_whole_witness:
  "exactTiling (image_Rect 0 0 2 1)
     [\<lparr>startX = 0, endX = 1, startY = 0, endY = 1\<rparr>, \<lparr>startX = 1, endX = 2, startY = 0, endY = 1\<rparr>]
   \<and> mset [\<lparr>startX = 1, endX = 2, startY = 0, endY = 1\<rparr>, \<lparr>startX = 0, endX = 1, startY = 0, endY = 1\<rparr>]
     = mset [\<lparr>startX = 0, endX = 1, startY = 0, endY = 1\<rparr>, \<lparr>startX = 1, endX = 2, startY = 0, endY = 1\<rparr>]
   \<and> Rect (NewRGBA (image_Rect 0 0 2 1)) = image_Rect 0 0 2 1
   \<and> (1, 0) \<in> rectPixels (image_Rect 0 0 2 1)
   \<and> runChunks (createTestImage 2 1 (RGBA 7 7 7 255)) (createTestImage 2 1 (RGBA 9 7 7 255))
        zeroStats zeroStats False 2 ''color''
        [\<lparr>startX = 1, endX = 2, startY = 0, endY = 1\<rparr>, \<lparr>startX = 0, endX = 1, startY = 0, endY = 1\<rparr>]
        (0, 0, 0, NewRGBA (image_Rect 0 0 2 1))
     = computeDiffChunk (createTestImage 2 1 (RGBA 7 7 7 255)) (createTestImage 2 1 (RGBA 9 7 7 255))
        (NewRGBA (image_Rect 0 0 2 1)) (wholeChunk (image_Rect 0 0 2 1))
        zeroStats zeroStats False 2 ''color''
   \<and> computeDiffChunk (createTestImage 2 1 (RGBA 7 7 7 255)) (createTestImage 2 1 (RGBA 9 7 7 255))
        (NewRGBA (image_Rect 0 0 2 1)) (wholeChunk (image_Rect 0 0 2 1))
        zeroStats zeroStats False 2 ''color''
     = (2, 2, 2, \<lparr>Pix = (\<lambda>p. if p \<in> {(0, 0), (1, 0)} then RGBA 4 0 0 255 else RGBA 0 0 0 0),
                  Rect = image_Rect 0 0 2 1\<rparr>)
   \<and> Pix (rasterOf (runChunks (createTestImage 2 1 (RGBA 7 7 7 255))
        (createTestImage 2 1 (RGBA 9 7 7 255)) zeroStats zeroStats False 2 ''color''
        [\<lparr>startX = 1, endX = 2, startY = 0, endY = 1\<rparr>, \<lparr>startX = 0, endX = 1, startY = 0, endY = 1\<rparr>]
        (0, 0, 0, NewRGBA (image_Rect 0 0 2 1)))) (1, 0)
     = pixelColour (createTestImage 2 1 (RGBA 7 7 7 255)) (createTestImage 2 1 (RGBA 9 7 7 255))
        zeroStats zeroStats False 2 ''color'' (1, 0)"
proof -
  have whole: "computeDiffChunk (createTestImage 2 1 (RGBA 7 7 7 255))
        (createTestImage 2 1 (RGBA 9 7 7 255))
        (NewRGBA (image_Rect 0 0 2 1)) (wholeChunk (image_Rect 0 0 2 1))
        zeroStats zeroStats False 2 ''color''
     = (2, 2, 2, \<lparr>Pix = (\<lambda>p. if p \<in> {(0, 0), (1, 0)} then RGBA 4 0 0 255 else RGBA 0 0 0 0),
                  Rect = image_Rect 0 0 2 1\<rparr>)"
    by (simp add: wholeChunk_def computeDiffChunk_def forLoop_fold_fun upto_rec1
        createTestImage_2x1 diffPixel_def In_def image_Rect_def RGBA_RGBA_def widen_def
        channelDiffs_def float8_def render_def toUint8_def floatToInt_def SetRGBA_def
        NewRGBA_def)
      (auto simp: fun_eq_iff)
  have px: "(1, 0) \<in> rectPixels (image_Rect 0 0 2 1)"
    by (simp add: rectPixels_def image_Rect_def)
  have r: "Rect (NewRGBA (image_Rect 0 0 2 1)) = image_Rect 0 0 2 1"
    by (simp add: NewRGBA_def)
  have ms: "mset [\<lparr>startX = 1, endX = 2, startY = 0, endY = 1\<rparr>, \<lparr>startX = 0, endX = 1, startY = 0, endY = 1\<rparr>]
     = mset [\<lparr>startX = 0, endX = 1, startY = 0, endY = 1\<rparr>, \<lparr>startX = 1, endX = 2, startY = 0, endY = 1\<rparr>]"
    by simp
  show ?thesis
    using chunked_run_equals_whole [where b = "image_Rect 0 0 2 1"
        and cs = "[\<lparr>startX = 0, endX = 1, startY = 0, endY = 1\<rparr>, \<lparr>startX = 1, endX = 2, startY = 0, endY = 1\<rparr>]"
        and cs' = "[\<lparr>startX = 1, endX = 2, startY = 0, endY = 1\<rparr>, \<lparr>startX = 0, endX = 1, startY = 0, endY = 1\<rparr>]"
        and diffImg = "NewRGBA (image_Rect 0 0 2 1)"
        and ?img1.0 = "createTestImage 2 1 (RGBA 7 7 7 255)"
        and ?img2.0 = "createTestImage 2 1 (RGBA 9 7 7 255)"
        and ?stats1.0 = zeroStats and ?stats2.0 = zeroStats and normalized = False
        and scaleFactor = 2 and diffMode = "''color''"]
      exactTiling_example px r ms whole
    by blast
qed

section \<open>Claim C1: createChunks tiles the bounds\<close>

lemma sdiv_nonneg_pos: "0 \<le> a \<Longrightarrow> 0 < b \<Longrightarrow> a sdiv b = a div (b::int)"
  by (simp add: signed_divide_int_def sgn_if)

lemma strip_disjoint:
  fixes n w L lo :: int
  assumes "0 \<le> w" "0 \<le> j" "j < j'" "j' \<le> n - 1"
  shows "(if j = n - 1 then lo + L else lo + j * w + w) \<le> lo + j' * w"
proof -
  have "(j + 1) * w \<le> j' * w"
    using assms by (intro mult_right_mono) auto
  then have "j * w + w \<le> j' * w"
    by (simp add: algebra_simps)
  with assms show ?thesis by auto
qed

lemma strip_inside:
  fixes n w L lo :: int
  assumes "0 \<le> w" "n * w \<le> L" "0 \<le> j" "j \<le> n - 1"
  shows "lo \<le> lo + j * w" "(if j = n - 1 then lo + L else lo + j * w + w) \<le> lo + L"
proof -
  show "lo \<le> lo + j * w" using assms by simp
  have "(j + 1) * w \<le> n * w" if "j \<noteq> n - 1"
    using assms that by (intro mult_right_mono) auto
  then have "j * w + w \<le> L" if "j \<noteq> n - 1"
    using that assms(2) by (simp add: algebra_simps)
  then show "(if j = n - 1 then lo + L else lo + j * w + w) \<le> lo + L" by auto
qed

lemma strip_cover:
  fixes n w L lo x :: int
  assumes "1 \<le> n" "0 \<le> w" "lo \<le> x" "x < lo + L"
  shows "\<exists>j. 0 \<le> j \<and> j \<le> n - 1 \<and> lo + j * w \<le> x
            \<and> x < (if j = n - 1 then lo + L else lo + j * w + w)"
proof (cases "w = 0")
  case True
  with assms show ?thesis by (intro exI [of _ "n - 1"]) auto
next
  case False
  with assms have w: "0 < w" by simp
  define q where "q = (x - lo) div w"
  have q0: "0 \<le> q" using assms w by (simp add: q_def pos_imp_zdiv_nonneg_iff)
  have lower: "q * w \<le> x - lo"
  proof -
    have "x - lo = q * w + (x - lo) mod w" by (simp add: q_def)
    moreover have "0 \<le> (x - lo) mod w" using w by simp
    ultimately show ?thesis by linarith
  qed
  have upper: "x - lo < q * w + w"
  proof -
    have "x - lo = q * w + (x - lo) mod w" by (simp add: q_def)
    moreover have "(x - lo) mod w < w" using w by simp
    ultimately show ?thesis by linarith
  qed
  show ?thesis
  proof (cases "q < n - 1")
    case True
    with q0 lower upper show ?thesis by (intro exI [of _ q]) auto
  next
    case False
    then have "(n - 1) * w \<le> q * w"
      using w by (intro mult_right_mono) auto
    with lower assms show ?thesis by (intro exI [of _ "n - 1"]) auto
  qed
qed

lemma strip_nonempty:
  fixes n w L lo :: int
  assumes "1 \<le> w" "n * w \<le> L" "0 \<le> j" "j \<le> n - 1"
  shows "lo + j * w < (if j = n - 1 then lo + L else lo + j * w + w)"
proof -
  have "(n - 1) * w + w \<le> L" using assms(2) by (simp add: algebra_simps)
  with assms show ?thesis by auto
qed

lemma div_grid:
  fixes n L :: int
  assumes "1 \<le> n" "0 \<le> L"
  shows "0 \<le> L div n" "n * (L div n) \<le> L" "n \<le> L \<Longrightarrow> 1 \<le> L div n"
proof -
  show "0 \<le> L div n" using assms by (simp add: pos_imp_zdiv_nonneg_iff)
  have "L = n * (L div n) + L mod n" by simp
  moreover have "0 \<le> L mod n" using assms by simp
  ultimately show "n * (L div n) \<le> L" by linarith
  show "1 \<le> L div n" if "n \<le> L"
  proof -
    have "n div n \<le> L div n"
      using that assms(1) by (intro zdiv_mono1) auto
    then show ?thesis using assms(1) by simp
  qed
qed

lemma sorted_wrt_concat:
  "sorted_wrt D (concat xss) \<longleftrightarrow>
     (\<forall>xs \<in> set xss. sorted_wrt D xs) \<and>
     sorted_wrt (\<lambda>xs ys. \<forall>x \<in> set xs. \<forall>y \<in> set ys. D x y) xss"
  by (induction xss) (auto simp: sorted_wrt_append)

lemma sorted_wrt_upto_less: "sorted_wrt (<) [i..j]"
  using sorted_upto [of i j] distinct_upto [of i j] by (simp add: strict_sorted_iff)

lemma sorted_wrt_range:
  assumes "\<And>j j'. i \<le> j \<Longrightarrow> j < j' \<Longrightarrow> j' \<le> n \<Longrightarrow> D (f j) (f j')"
  shows "sorted_wrt D (map f [i..n])"
proof -
  have "sorted_wrt (\<lambda>j j'. D (f j) (f j')) [i..n]"
    by (rule sorted_wrt_mono_rel [OF _ sorted_wrt_upto_less]) (use assms in auto)
  then show ?thesis by (simp add: sorted_wrt_map)
qed

lemma pairwise_of_sorted_wrt:
  assumes "sorted_wrt D cs" "\<And>c d. D c d \<Longrightarrow> D d c" "i < length cs" "j < length cs" "i \<noteq> j"
  shows "D (cs ! i) (cs ! j)"
proof (cases "i < j")
  case True
  with assms show ?thesis by (simp add: sorted_wrt_iff_nth_less)
next
  case False
  with assms have "j < i" by simp
  with assms have "D (cs ! j) (cs ! i)" by (simp add: sorted_wrt_iff_nth_less)
  then show ?thesis by (rule assms(2))
qed

lemma in_chunkAtExact:
  "(x, y) \<in> pixelsOf (chunkAtExact b nx ny cw ch i j) \<longleftrightarrow>
     MinX b + j * cw \<le> x \<and> x < (if j = nx - 1 then MaxX b else MinX b + j * cw + cw) \<and>
     MinY b + i * ch \<le> y \<and> y < (if i = ny - 1 then MaxY b else MinY b + i * ch + ch)"
  by (simp add: pixelsOf_def chunkAtExact_def)

lemma set_chunkGridList:
  "set (chunkGridList b nx ny cw ch) =
     {chunkAtExact b nx ny cw ch i j | i j. 0 \<le> i \<and> i \<le> ny - 1 \<and> 0 \<le> j \<and> j \<le> nx - 1}"
  by (auto simp: chunkGridList_def) blast

lemma MaxX_Dx: "MaxX b = MinX b + Dx b"
  by (simp add: Dx_def)

lemma MaxY_Dy: "MaxY b = MinY b + Dy b"
  by (simp add: Dy_def)

lemma chunkGridList_union:
  assumes "1 \<le> nx" "1 \<le> ny" "0 \<le> cw" "0 \<le> ch" "nx * cw \<le> Dx b" "ny * ch \<le> Dy b"
  shows "(\<Union>c \<in> set (chunkGridList b nx ny cw ch). pixelsOf c) = rectPixels b"
proof (intro set_eqI iffI)
  fix p :: "int \<times> int"
  obtain x y where p: "p = (x, y)" by (cases p) auto
  {
    assume "p \<in> (\<Union>c \<in> set (chunkGridList b nx ny cw ch). pixelsOf c)"
    then obtain i j where ij: "0 \<le> i" "i \<le> ny - 1" "0 \<le> j" "j \<le> nx - 1"
      and m: "(x, y) \<in> pixelsOf (chunkAtExact b nx ny cw ch i j)"
      unfolding set_chunkGridList p by auto
    from m have mx: "MinX b + j * cw \<le> x"
        "x < (if j = nx - 1 then MinX b + Dx b else MinX b + j * cw + cw)"
      and my: "MinY b + i * ch \<le> y"
        "y < (if i = ny - 1 then MinY b + Dy b else MinY b + i * ch + ch)"
      by (auto simp: in_chunkAtExact MaxX_Dx MaxY_Dy split: if_splits)
    have "MinX b \<le> x" "x < MinX b + Dx b"
      using strip_inside [OF assms(3,5) ij(3,4), of "MinX b"] mx by linarith+
    moreover have "MinY b \<le> y" "y < MinY b + Dy b"
      using strip_inside [OF assms(4,6) ij(1,2), of "MinY b"] my by linarith+
    ultimately show "p \<in> rectPixels b"
      by (simp add: p rectPixels_def MaxX_Dx MaxY_Dy)
  }
  {
    assume "p \<in> rectPixels b"
    then have x: "MinX b \<le> x" "x < MinX b + Dx b" and y: "MinY b \<le> y" "y < MinY b + Dy b"
      by (simp_all add: p rectPixels_def MaxX_Dx MaxY_Dy)
    obtain j where j: "0 \<le> j" "j \<le> nx - 1" "MinX b + j * cw \<le> x"
        "x < (if j = nx - 1 then MinX b + Dx b else MinX b + j * cw + cw)"
      using strip_cover [OF assms(1,3) x] by blast
    obtain i where i: "0 \<le> i" "i \<le> ny - 1" "MinY b + i * ch \<le> y"
        "y < (if i = ny - 1 then MinY b + Dy b else MinY b + i * ch + ch)"
      using strip_cover [OF assms(2,4) y] by blast
    have "(x, y) \<in> pixelsOf (chunkAtExact b nx ny cw ch i j)"
      using i j by (auto simp: in_chunkAtExact MaxX_Dx MaxY_Dy split: if_splits)
    moreover have "chunkAtExact b nx ny cw ch i j \<in> set (chunkGridList b nx ny cw ch)"
      unfolding set_chunkGridList using i j by blast
    ultimately show "p \<in> (\<Union>c \<in> set (chunkGridList b nx ny cw ch). pixelsOf c)"
      unfolding p by blast
  }
qed

lemma chunkAtExact_disjoint_cols:
  assumes "0 \<le> cw" "0 \<le> j" "j < j'" "j' \<le> nx - 1"
  shows "pixelsOf (chunkAtExact b nx ny cw ch i j) \<inter> pixelsOf (chunkAtExact b nx ny cw ch i' j') = {}"
proof -
  have False
    if a: "(x, y) \<in> pixelsOf (chunkAtExact b nx ny cw ch i j)"
      and b: "(x, y) \<in> pixelsOf (chunkAtExact b nx ny cw ch i' j')" for x y
  proof -
    from a have "x < (if j = nx - 1 then MinX b + Dx b else MinX b + j * cw + cw)"
      unfolding in_chunkAtExact MaxX_Dx by blast
    moreover from b have "MinX b + j' * cw \<le> x"
      unfolding in_chunkAtExact by blast
    moreover note strip_disjoint [OF assms, of "MinX b" "Dx b"]
    ultimately show False by linarith
  qed
  then show ?thesis by auto
qed

lemma chunkAtExact_disjoint_rows:
  assumes "0 \<le> ch" "0 \<le> i" "i < i'" "i' \<le> ny - 1"
  shows "pixelsOf (chunkAtExact b nx ny cw ch i j) \<inter> pixelsOf (chunkAtExact b nx ny cw ch i' j') = {}"
proof -
  have False
    if a: "(x, y) \<in> pixelsOf (chunkAtExact b nx ny cw ch i j)"
      and b: "(x, y) \<in> pixelsOf (chunkAtExact b nx ny cw ch i' j')" for x y
  proof -
    from a have "y < (if i = ny - 1 then MinY b + Dy b else MinY b + i * ch + ch)"
      unfolding in_chunkAtExact MaxY_Dy by blast
    moreover from b have "MinY b + i' * ch \<le> y"
      unfolding in_chunkAtExact by blast
    moreover note strip_disjoint [OF assms, of "MinY b" "Dy b"]
    ultimately show False by linarith
  qed
  then show ?thesis by auto
qed

lemma chunkGridList_disjoint:
  assumes "0 \<le> cw" "0 \<le> ch"
  shows "sorted_wrt (\<lambda>c d. pixelsOf c \<inter> pixelsOf d = {}) (chunkGridList b nx ny cw ch)"
  unfolding chunkGridList_def sorted_wrt_concat
proof (intro conjI ballI)
  fix xs
  assume "xs \<in> set (map (\<lambda>i. map (chunkAtExact b nx ny cw ch i) [0..nx - 1]) [0..ny - 1])"
  then obtain i where xs: "xs = map (chunkAtExact b nx ny cw ch i) [0..nx - 1]" by auto
  show "sorted_wrt (\<lambda>c d. pixelsOf c \<inter> pixelsOf d = {}) xs"
    unfolding xs by (rule sorted_wrt_range) (rule chunkAtExact_disjoint_cols [OF assms(1)])
next
  show "sorted_wrt (\<lambda>xs ys. \<forall>x\<in>set xs. \<forall>y\<in>set ys. pixelsOf x \<inter> pixelsOf y = {})
     (map (\<lambda>i. map (chunkAtExact b nx ny cw ch i) [0..nx - 1]) [0..ny - 1])"
  proof (rule sorted_wrt_range, intro ballI)
    fix i i' c d
    assume ii: "0 \<le> i" "i < i'" "i' \<le> ny - 1"
      and "c \<in> set (map (chunkAtExact b nx ny cw ch i) [0..nx - 1])"
      and "d \<in> set (map (chunkAtExact b nx ny cw ch i') [0..nx - 1])"
    then obtain j j' where cd: "c = chunkAtExact b nx ny cw ch i j" "d = chunkAtExact b nx ny cw ch i' j'"
      by auto
    show "pixelsOf c \<inter> pixelsOf d = {}"
      unfolding cd by (rule chunkAtExact_disjoint_rows [OF assms(2) ii])
  qed
qed

lemma chunkGridList_tiling:
  assumes "1 \<le> nx" "1 \<le> ny" "0 \<le> cw" "0 \<le> ch" "nx * cw \<le> Dx b" "ny * ch \<le> Dy b"
  shows "exactTiling b (chunkGridList b nx ny cw ch)"
  unfolding exactTiling_def
proof (intro conjI allI impI)
  fix i j
  assume "i < length (chunkGridList b nx ny cw ch)" "j < length (chunkGridList b nx ny cw ch)"
    "i \<noteq> j"
  then show "pixelsOf (chunkGridList b nx ny cw ch ! i) \<inter> pixelsOf (chunkGridList b nx ny cw ch ! j) = {}"
    by (intro pairwise_of_sorted_wrt [OF chunkGridList_disjoint [OF assms(3,4)]]) auto
next
  show "(\<Union>c \<in> set (chunkGridList b nx ny cw ch). pixelsOf c) = rectPixels b"
    using assms by (rule chunkGridList_union)
qed

lemma chunkGridList_nonempty:
  assumes "1 \<le> cw" "1 \<le> ch" "nx * cw \<le> Dx b" "ny * ch \<le> Dy b"
    "c \<in> set (chunkGridList b nx ny cw ch)"
  shows "startX c < endX c \<and> startY c < endY c"
proof -
  obtain i j where ij: "0 \<le> i" "i \<le> ny - 1" "0 \<le> j" "j \<le> nx - 1"
    and c: "c = chunkAtExact b nx ny cw ch i j"
    using assms(5) unfolding set_chunkGridList by auto
  show ?thesis
    using strip_nonempty [OF assms(1,3) ij(3,4), of "MinX b"]
      strip_nonempty [OF assms(2,4) ij(1,2), of "MinY b"]
    by (auto simp: c chunkAtExact_def MaxX_Dx MaxY_Dy split: if_splits)
qed

lemma strip_fits:
  fixes n w L lo :: int
  assumes "0 \<le> w" "n * w \<le> L" "0 \<le> j" "j \<le> n - 1"
    "fitsInt64 lo" "fitsInt64 (lo + L)" "fitsInt64 L"
  shows "fitsInt64 (j * w)" "fitsInt64 (lo + j * w)" "fitsInt64 (lo + j * w + w)"
proof -
  have "(j + 1) * w \<le> n * w"
    using assms(1,4) by (intro mult_right_mono) auto
  then have up: "j * w + w \<le> L"
    using assms(2) by (simp add: algebra_simps)
  have lo: "0 \<le> j * w"
    using assms(1,3) by simp
  show "fitsInt64 (j * w)" "fitsInt64 (lo + j * w)" "fitsInt64 (lo + j * w + w)"
    using up lo assms(1,5,6,7) by (auto simp: fitsInt64_def)
qed

lemma chunkAt_exact:
  assumes "1 \<le> nx" "1 \<le> ny" "0 \<le> cw" "0 \<le> ch" "nx * cw \<le> Dx b" "ny * ch \<le> Dy b"
    "fitsRect b" "fitsInt64 nx" "fitsInt64 ny" "0 \<le> i" "i \<le> ny - 1" "0 \<le> j" "j \<le> nx - 1"
  shows "chunkAt b nx ny cw ch i j = chunkAtExact b nx ny cw ch i j"
proof -
  have fb: "fitsInt64 (MinX b)" "fitsInt64 (MinX b + Dx b)" "fitsInt64 (Dx b)"
      "fitsInt64 (MinY b)" "fitsInt64 (MinY b + Dy b)" "fitsInt64 (Dy b)"
    using assms(7) by (simp_all add: fitsRect_def Dx_def Dy_def)
  note fx = strip_fits [OF assms(3,5,12,13) fb(1,2,3)]
  note fy = strip_fits [OF assms(4,6,10,11) fb(4,5,6)]
  have n1: "wrap64 (nx - 1) = nx - 1" "wrap64 (ny - 1) = ny - 1"
    using assms(1,2,8,9) by (auto intro!: wrap64_id simp: fitsInt64_def)
  show ?thesis
    by (simp add: chunkAt_def chunkAtExact_def Let_def wrap64_id fx fy n1)
qed

lemma createChunks_grid:
  assumes "1 \<le> nx" "1 \<le> ny" "0 < Dx b" "0 < Dy b" "fitsRect b" "fitsInt64 nx" "fitsInt64 ny"
  shows "createChunks b nx ny = Some (chunkGridList b nx ny (Dx b div nx) (Dy b div ny))"
proof -
  have W0: "0 \<le> Dx b" and H0: "0 \<le> Dy b"
    using assms(3,4) by simp_all
  note gx = div_grid [OF assms(1) W0] and gy = div_grid [OF assms(2) H0]
  have fW: "fitsInt64 (Dx b)" and fH: "fitsInt64 (Dy b)"
    using assms(5) by (simp_all add: fitsRect_def)
  have qx: "Dx b div nx \<le> Dx b" and qy: "Dy b div ny \<le> Dy b"
    using assms(1,2) W0 H0 zdiv_mono2 [of "Dx b" 1 nx] zdiv_mono2 [of "Dy b" 1 ny] by simp_all
  have cw: "wrap64 (wrap64 (Dx b) sdiv nx) = Dx b div nx"
    using fW W0 gx(1) qx assms(1)
    by (simp add: wrap64_id sdiv_nonneg_pos) (auto intro!: wrap64_id simp: fitsInt64_def)
  have ch: "wrap64 (wrap64 (Dy b) sdiv ny) = Dy b div ny"
    using fH H0 gy(1) qy assms(2)
    by (simp add: wrap64_id sdiv_nonneg_pos) (auto intro!: wrap64_id simp: fitsInt64_def)
  have row: "map (chunkAt b nx ny (Dx b div nx) (Dy b div ny) i) [0..nx - 1] =
      map (chunkAtExact b nx ny (Dx b div nx) (Dy b div ny) i) [0..nx - 1]"
    if "0 \<le> i" "i \<le> ny - 1" for i
    using that
    by (intro map_cong refl chunkAt_exact [OF assms(1,2) gx(1) gy(1) gx(2) gy(2) assms(5,6,7)])
      auto
  have "createChunks b nx ny =
      Some (concat (map (\<lambda>i. map (chunkAt b nx ny (Dx b div nx) (Dy b div ny) i) [0..nx - 1])
        [0..ny - 1]))"
    using assms(1,2) by (simp add: createChunks_eq cw ch)
  also have "map (\<lambda>i. map (chunkAt b nx ny (Dx b div nx) (Dy b div ny) i) [0..nx - 1]) [0..ny - 1] =
      map (\<lambda>i. map (chunkAtExact b nx ny (Dx b div nx) (Dy b div ny) i) [0..nx - 1]) [0..ny - 1]"
    by (intro map_cong refl row) auto
  finally show ?thesis
    by (simp add: chunkGridList_def)
qed

lemma sdiv_32_le:
  fixes W :: int
  assumes "0 < W"
  shows "W sdiv 32 \<le> W"
proof -
  have "W div 32 \<le> W div 1"
    using assms by (intro zdiv_mono2) auto
  then show ?thesis using assms by (simp add: sdiv_nonneg_pos)
qed

lemma sdiv_at_least_32:
  fixes W g :: int
  assumes "0 < W" "\<not> W sdiv g < 32"
  shows "1 \<le> g \<and> g \<le> W"
proof -
  have pos: "0 < g"
  proof (rule ccontr)
    assume "\<not> 0 < g"
    then have "W sdiv g \<le> 0"
      using assms(1) by (auto simp: signed_divide_int_def sgn_if pos_imp_zdiv_nonneg_iff)
    with assms(2) show False by simp
  qed
  have "g \<le> W"
  proof (rule ccontr)
    assume "\<not> g \<le> W"
    then have "W div g = 0" using assms(1) by (simp add: div_pos_pos_trivial)
    with assms pos show False by (simp add: sdiv_nonneg_pos)
  qed
  with pos show ?thesis by simp
qed

lemma wrap64_sdiv:
  fixes W g :: int
  assumes "0 < W" "fitsInt64 W"
  shows "wrap64 (W sdiv g) = W sdiv g"
proof -
  have "\<bar>W\<bar> div \<bar>g\<bar> \<le> \<bar>W\<bar>"
    by (cases "g = 0") (simp_all add: zdiv_mono2 [of "\<bar>W\<bar>" 1 "\<bar>g\<bar>", simplified])
  moreover have "0 \<le> \<bar>W\<bar> div \<bar>g\<bar>"
    by (simp add: pos_imp_zdiv_nonneg_iff div_int_pos_iff)
  ultimately have "- W \<le> W sdiv g \<and> W sdiv g \<le> W"
    using assms(1) by (auto simp: signed_divide_int_def sgn_if)
  then show ?thesis
    using assms by (intro wrap64_id) (auto simp: fitsInt64_def)
qed

lemma chunkGrid_fits:
  assumes "chunkGrid numCPU b = Some (nx, ny)" "0 < Dx b" "0 < Dy b"
    "fitsInt64 (Dx b)" "fitsInt64 (Dy b)"
  shows "1 \<le> nx \<and> nx \<le> Dx b \<and> 1 \<le> ny \<and> ny \<le> Dy b"
proof -
  define gx where "gx = floatToInt (sqrt (real_of_int numCPU))"
  define gy where "gy = (if gx * wrap64 (numCPU sdiv gx) < numCPU
     then wrap64 (numCPU sdiv gx) + 1 else wrap64 (numCPU sdiv gx))"
  have nz: "gx \<noteq> 0" "gy \<noteq> 0"
    using assms(1) unfolding chunkGrid_def goDiv_def gx_def gy_def
    by (auto simp: Let_def split: if_splits)
  have nx: "nx = max 1 (if Dx b sdiv gx < 32 then Dx b sdiv 32 else gx)"
    and ny: "ny = max 1 (if Dy b sdiv gy < 32 then Dy b sdiv 32 else gy)"
    using assms(1) nz unfolding chunkGrid_def goDiv_def gx_def gy_def
    by (auto simp: Let_def max_def wrap64_sdiv [OF assms(2,4)] wrap64_sdiv [OF assms(3,5)]
        split: if_splits)
  have "nx \<le> Dx b"
    unfolding nx using assms(2) sdiv_32_le [OF assms(2)] sdiv_at_least_32 [OF assms(2), of gx]
    by (auto simp: max_def)
  moreover have "ny \<le> Dy b"
    unfolding ny using assms(3) sdiv_32_le [OF assms(3)] sdiv_at_least_32 [OF assms(3), of gy]
    by (auto simp: max_def)
  moreover have "1 \<le> nx" "1 \<le> ny"
    unfolding nx ny by simp_all
  ultimately show ?thesis by simp
qed

text \<open>
  Outside the 64-bit range the width wraps around and the chunks leave the bounds: for
  the rectangle from \<open>-2^62\<close> to \<open>2^62\<close> the width computed is \<open>-2^63\<close>.
\<close>

lemma createChunks_wraps:
  "createChunks \<lparr>MinX = - (2 ^ 62), MinY = 0, MaxX = 2 ^ 62, MaxY = 1\<rparr> 2 1 =
     Some [\<lparr>startX = - (2 ^ 62), endX = - (2 ^ 63), startY = 0, endY = 1\<rparr>,
           \<lparr>startX = - (2 ^ 63), endX = 2 ^ 62, startY = 0, endY = 1\<rparr>]"
  by (simp add: createChunks_def goDiv_def wrap64_def Dx_def Dy_def signed_divide_int_def
      forLoop_fold_fun upto_rec1 chunkAt_def Let_def)

text \<open>
  C1, amended. For every well-formed rectangle of positive area whose coordinates, width
  and height are values of Go's 64-bit \<open>int\<close> (so that \<open>Max - Min\<close> does not overflow) and
  all grid parameters \<open>numChunksX \<ge> 1\<close> and \<open>numChunksY \<ge> 1\<close>, \<open>createChunks\<close> yields
  chunks that are pairwise disjoint and whose union is exactly the rectangle; when in
  addition \<open>numChunksX\<close> is at most the width and \<open>numChunksY\<close> at most the height, every
  chunk has \<open>startX < endX\<close> and \<open>startY < endY\<close>. Every grid that \<open>main\<close> computes for
  such a rectangle, from a number of CPUs between 1 and \<open>2^31\<close>, satisfies these two bounds.
\<close>

theorem createChunks_tiles:
  "wellFormed b \<and> fitsRect b \<and> 0 < Dx b * Dy b
   \<and> 1 \<le> numChunksX \<and> fitsInt64 numChunksX \<and> 1 \<le> numChunksY \<and> fitsInt64 numChunksY \<longrightarrow>
     (\<exists>cs. createChunks b numChunksX numChunksY = Some cs \<and> exactTiling b cs
        \<and> (numChunksX \<le> Dx b \<and> numChunksY \<le> Dy b \<longrightarrow>
              (\<forall>c \<in> set cs. startX c < endX c \<and> startY c < endY c)))
     \<and> (\<forall>numCPU nx ny. 1 \<le> numCPU \<and> numCPU < 2 ^ 31 \<and> chunkGrid numCPU b = Some (nx, ny) \<longrightarrow>
           1 \<le> nx \<and> nx \<le> Dx b \<and> 1 \<le> ny \<and> ny \<le> Dy b)"
proof (intro impI, elim conjE)
  assume wf: "wellFormed b" and fits: "fitsRect b" and area: "0 < Dx b * Dy b"
    and nx: "1 \<le> numChunksX" and fnx: "fitsInt64 numChunksX"
    and ny: "1 \<le> numChunksY" and fny: "fitsInt64 numChunksY"
  have "0 \<le> Dx b" "0 \<le> Dy b"
    using wf by (simp_all add: wellFormed_def Dx_def Dy_def)
  with area have W: "0 < Dx b" and H: "0 < Dy b"
    by (auto simp: zero_less_mult_iff)
  have fW: "fitsInt64 (Dx b)" and fH: "fitsInt64 (Dy b)"
    using fits by (simp_all add: fitsRect_def)
  let ?cs = "chunkGridList b numChunksX numChunksY (Dx b div numChunksX) (Dy b div numChunksY)"
  have cs: "createChunks b numChunksX numChunksY = Some ?cs"
    using nx ny W H fits fnx fny by (rule createChunks_grid)
  have W0: "0 \<le> Dx b" and H0: "0 \<le> Dy b"
    using W H by simp_all
  note gx = div_grid [OF nx W0] and gy = div_grid [OF ny H0]
  have tiling: "exactTiling b ?cs"
    using nx ny gx(1) gy(1) gx(2) gy(2) by (rule chunkGridList_tiling)
  have nonempty: "startX c < endX c \<and> startY c < endY c"
    if "numChunksX \<le> Dx b" "numChunksY \<le> Dy b" "c \<in> set ?cs" for c
    using gx(3) [OF that(1)] gy(3) [OF that(2)] gx(2) gy(2) that(3)
    by (rule chunkGridList_nonempty)
  show "(\<exists>cs. createChunks b numChunksX numChunksY = Some cs \<and> exactTiling b cs
        \<and> (numChunksX \<le> Dx b \<and> numChunksY \<le> Dy b \<longrightarrow>
              (\<forall>c \<in> set cs. startX c < endX c \<and> startY c < endY c)))
     \<and> (\<forall>numCPU nx ny. 1 \<le> numCPU \<and> numCPU < 2 ^ 31 \<and> chunkGrid numCPU b = Some (nx, ny) \<longrightarrow>
           1 \<le> nx \<and> nx \<le> Dx b \<and> 1 \<le> ny \<and> ny \<le> Dy b)"
    using cs tiling nonempty chunkGrid_fits [OF _ W H fW fH] by blast
qed

lemma createChunks_3x2:
  "createChunks (image_Rect 0 0 3 2) 2 1 =
     Some [\<lparr>startX = 0, endX = 1, startY = 0, endY = 2\<rparr>, \<lparr>startX = 1, endX = 3, startY = 0, endY = 2\<rparr>]"
  by (simp add: createChunks_eq upto_rec1 chunkAt_def wrap64_def image_Rect_def Dx_def Dy_def
      signed_divide_int_def)

theorem createChunks_tiles_witness:
  "wellFormed (image_Rect 0 0 3 2) \<and> fitsRect (image_Rect 0 0 3 2)
   \<and> 0 < Dx (image_Rect 0 0 3 2) * Dy (image_Rect 0 0 3 2)
   \<and> (1::int) \<le> 2 \<and> fitsInt64 2 \<and> (1::int) \<le> 1 \<and> fitsInt64 1
   \<and> 2 \<le> Dx (image_Rect 0 0 3 2) \<and> 1 \<le> Dy (image_Rect 0 0 3 2)
   \<and> (1::int) \<le> 1 \<and> (1::int) < 2 ^ 31
   \<and> createChunks (image_Rect 0 0 3 2) 2 1 =
     Some [\<lparr>startX = 0, endX = 1, startY = 0, endY = 2\<rparr>, \<lparr>startX = 1, endX = 3, startY = 0, endY = 2\<rparr>]
   \<and> exactTiling (image_Rect 0 0 3 2)
     [\<lparr>startX = 0, endX = 1, startY = 0, endY = 2\<rparr>, \<lparr>startX = 1, endX = 3, startY = 0, endY = 2\<rparr>]
   \<and> chunkGrid 1 (image_Rect 0 0 3 2) = Some (1, 1)"
proof -
  have hyp: "wellFormed (image_Rect 0 0 3 2) \<and> fitsRect (image_Rect 0 0 3 2)
      \<and> 0 < Dx (image_Rect 0 0 3 2) * Dy (image_Rect 0 0 3 2)
      \<and> (1::int) \<le> 2 \<and> fitsInt64 2 \<and> (1::int) \<le> 1 \<and> fitsInt64 1"
    by (simp add: wellFormed_def fitsRect_def fitsInt64_def image_Rect_def Dx_def Dy_def)
  have fits: "2 \<le> Dx (image_Rect 0 0 3 2) \<and> 1 \<le> Dy (image_Rect 0 0 3 2)"
    by (simp add: image_Rect_def Dx_def Dy_def)
  have grid: "chunkGrid 1 (image_Rect 0 0 3 2) = Some (1, 1)"
    by (simp add: image_Rect_def Dx_def Dy_def chunkGrid_def goDiv_def floatToInt_def
        signed_divide_int_def wrap64_def)
  from createChunks_tiles [of "image_Rect 0 0 3 2" 2 1] hyp
  have "\<exists>cs. createChunks (image_Rect 0 0 3 2) 2 1 = Some cs \<and> exactTiling (image_Rect 0 0 3 2) cs"
    by blast
  then have "exactTiling (image_Rect 0 0 3 2)
     [\<lparr>startX = 0, endX = 1, startY = 0, endY = 2\<rparr>, \<lparr>startX = 1, endX = 3, startY = 0, endY = 2\<rparr>]"
    by (simp add: createChunks_3x2)
  with hyp fits grid show ?thesis
    by (simp add: createChunks_3x2)
qed

text \<open>
  C1, as stated, fails: with more chunks than pixels along an axis the chunk width is 0
  and every chunk but the last of a row is empty. A 1x1 image split into two columns:
\<close>

theorem createChunks_empty_chunk:
  "wellFormed (image_Rect 0 0 1 1) \<and> fitsRect (image_Rect 0 0 1 1)
   \<and> 0 < Dx (image_Rect 0 0 1 1) * Dy (image_Rect 0 0 1 1)
   \<and> createChunks (image_Rect 0 0 1 1) 2 1 =
     Some [\<lparr>startX = 0, endX = 0, startY = 0, endY = 1\<rparr>, \<lparr>startX = 0, endX = 1, startY = 0, endY = 1\<rparr>]
   \<and> \<not> startX \<lparr>startX = 0, endX = 0, startY = 0, endY = 1\<rparr>
         < endX \<lparr>startX = 0, endX = 0, startY = 0, endY = 1\<rparr>"
  by (simp add: createChunks_eq upto_rec1 chunkAt_def wrap64_def image_Rect_def Dx_def Dy_def
      signed_divide_int_def wellFormed_def fitsRect_def fitsInt64_def)

section \<open>Claim C9: createCompositeImage\<close>





section \<open>Claim C8: calculateImageStats\<close>







end
